theory Spec2Isabelle
  imports Main
begin

section \<open>Data model\<close>

text \<open>
  A timestamp is a reading of the wall clock (\<^verbatim>\<open>datetime.now()\<close>). The clock is outside
  the program, so every operation that reads it takes the reading as an argument.
\<close>

type_synonym timestamp = int

text \<open>\<^verbatim>\<open>models.TodoStatus\<close>: a string enumeration with three members.\<close>

datatype TodoStatus = PENDING | IN_PROGRESS | COMPLETED

text \<open>
  A todo record. \<^verbatim>\<open>models.Todo\<close> and \<^verbatim>\<open>todo_app.Todo\<close> have the same six attributes; they
  differ in what the attributes may hold, so the record is polymorphic in the types of
  \<open>title\<close>, \<open>description\<close> and \<open>status\<close>. The attribute \<^verbatim>\<open>id\<close> is the field \<open>todo_id\<close>.
\<close>

record ('t, 'd, 's) todo =
  todo_id :: int
  title :: 't
  description :: 'd
  status :: 's
  created_at :: timestamp
  updated_at :: timestamp

text \<open>
  The store: the list of records in insertion order and the id counter. In
  \<^verbatim>\<open>database.py\<close> these are the module globals \<^verbatim>\<open>todos_db\<close> and \<^verbatim>\<open>next_id\<close>, in
  \<^verbatim>\<open>todo_app.py\<close> the attributes \<^verbatim>\<open>self.todos\<close> and \<^verbatim>\<open>self.next_id\<close>.
\<close>

record 'a store =
  todos :: "'a list"
  next_id :: int

definition empty_store :: "'a store" where
  "empty_store = \<lparr>todos = [], next_id = 1\<rparr>"

subsection \<open>The loops over the list of records\<close>

text \<open>
  \<^verbatim>\<open>for todo in todos: if todo.id == todo_id: return todo\<close>, then \<^verbatim>\<open>return None\<close>.
\<close>

fun find_by_id :: "int \<Rightarrow> ('t, 'd, 's) todo list \<Rightarrow> ('t, 'd, 's) todo option" where
  "find_by_id i [] = None"
| "find_by_id i (t # ts) = (if todo_id t = i then Some t else find_by_id i ts)"

text \<open>
  \<^verbatim>\<open>for i, todo in enumerate(todos): if todo.id == todo_id: todos.pop(i); return True\<close>,
  then \<^verbatim>\<open>return False\<close>. \<open>None\<close> is the result \<^verbatim>\<open>False\<close>; \<open>Some\<close> carries the list after
  the pop.
\<close>

fun pop_by_id :: "int \<Rightarrow> ('t, 'd, 's) todo list \<Rightarrow> ('t, 'd, 's) todo list option" where
  "pop_by_id i [] = None"
| "pop_by_id i (t # ts) =
     (if todo_id t = i then Some ts else map_option ((#) t) (pop_by_id i ts))"

text \<open>
  The first record with the given id is changed in place by \<open>f\<close>; the result is the
  changed record and the list holding it, or \<open>None\<close> when no record has the id.
\<close>

fun set_by_id ::
  "int \<Rightarrow> (('t, 'd, 's) todo \<Rightarrow> ('t, 'd, 's) todo) \<Rightarrow> ('t, 'd, 's) todo list
     \<Rightarrow> (('t, 'd, 's) todo \<times> ('t, 'd, 's) todo list) option" where
  "set_by_id i f [] = None"
| "set_by_id i f (t # ts) =
     (if todo_id t = i then Some (f t, f t # ts)
      else map_option (\<lambda>(r, ts'). (r, t # ts')) (set_by_id i f ts))"

section \<open>The store of \<^verbatim>\<open>database.py\<close>\<close>

text \<open>
  The attributes of a stored \<^verbatim>\<open>models.Todo\<close>. \<^verbatim>\<open>update_todo\<close> assigns with \<^verbatim>\<open>setattr\<close>,
  which does not validate, so a field that a \<^verbatim>\<open>TodoUpdate\<close> sets to \<^verbatim>\<open>None\<close> explicitly
  becomes \<^verbatim>\<open>None\<close> in the record: each of the three may be \<open>None\<close>.
\<close>

type_synonym db_todo = "(string option, string option, TodoStatus option) todo"

text \<open>\<^verbatim>\<open>models.TodoCreate\<close>: \<^verbatim>\<open>title: str\<close>, \<^verbatim>\<open>description: Optional[str] = None\<close>,
  \<^verbatim>\<open>status: TodoStatus = PENDING\<close>. No validator constrains the title.\<close>

record TodoCreate =
  c_title :: string
  c_description :: "string option"
  c_status :: TodoStatus

text \<open>
  \<^verbatim>\<open>models.TodoUpdate\<close>: three optional fields. \<^verbatim>\<open>dict(exclude_unset=True)\<close> keeps the
  fields that were passed to the constructor, also those passed as \<^verbatim>\<open>None\<close>; \<open>Unset\<close> is
  a field that was not passed.
\<close>

datatype 'a field = Unset | Given 'a

record TodoUpdate =
  u_title :: "string option field"
  u_description :: "string option field"
  u_status :: "TodoStatus option field"

definition get_todos :: "db_todo store \<Rightarrow> db_todo list" where
  "get_todos s = todos s"

definition get_todo :: "int \<Rightarrow> db_todo store \<Rightarrow> db_todo option" where
  "get_todo i s = find_by_id i (todos s)"

definition create_todo :: "timestamp \<Rightarrow> TodoCreate \<Rightarrow> db_todo store \<Rightarrow> db_todo \<times> db_todo store" where
  "create_todo now todo_data s =
     (let todo = \<lparr>todo_id = next_id s,
                  title = Some (c_title todo_data),
                  description = c_description todo_data,
                  status = Some (c_status todo_data),
                  created_at = now,
                  updated_at = now\<rparr>
      in (todo, s\<lparr>todos := todos s @ [todo], next_id := next_id s + 1\<rparr>))"

text \<open>The inner loop of \<^verbatim>\<open>update_todo\<close>: \<^verbatim>\<open>setattr\<close> for every field that is set, then
  the refresh of \<^verbatim>\<open>updated_at\<close>.\<close>

definition apply_update :: "timestamp \<Rightarrow> TodoUpdate \<Rightarrow> db_todo \<Rightarrow> db_todo" where
  "apply_update now todo_data todo =
     todo\<lparr>title := (case u_title todo_data of Unset \<Rightarrow> title todo | Given v \<Rightarrow> v),
          description := (case u_description todo_data of Unset \<Rightarrow> description todo | Given v \<Rightarrow> v),
          status := (case u_status todo_data of Unset \<Rightarrow> status todo | Given v \<Rightarrow> v),
          updated_at := now\<rparr>"

definition update_todo ::
  "timestamp \<Rightarrow> int \<Rightarrow> TodoUpdate \<Rightarrow> db_todo store \<Rightarrow> db_todo option \<times> db_todo store" where
  "update_todo now i todo_data s =
     (case set_by_id i (apply_update now todo_data) (todos s) of
        None \<Rightarrow> (None, s)
      | Some (todo, ts) \<Rightarrow> (Some todo, s\<lparr>todos := ts\<rparr>))"

definition delete_todo :: "int \<Rightarrow> db_todo store \<Rightarrow> bool \<times> db_todo store" where
  "delete_todo i s =
     (case pop_by_id i (todos s) of
        None \<Rightarrow> (False, s)
      | Some ts \<Rightarrow> (True, s\<lparr>todos := ts\<rparr>))"

section \<open>Decoded JSON values\<close>

text \<open>
  What \<^verbatim>\<open>json.loads\<close> returns: \<^verbatim>\<open>None\<close>, a bool, an int, a str, a list or a dict with
  string keys (an association list here; \<open>map_of\<close> reads it). Floats are left out of the
  model. \<^verbatim>\<open>dict.get\<close> answers \<^verbatim>\<open>None\<close> for an absent key, which is \<open>JNull\<close>.
\<close>

datatype json =
    JNull
  | JBool bool
  | JInt int
  | JStr string
  | JArray "json list"
  | JObject "(string \<times> json) list"

text \<open>Python's truth value of a decoded value, as \<^verbatim>\<open>if x:\<close> and \<^verbatim>\<open>not x\<close> test it.\<close>

fun truthy :: "json \<Rightarrow> bool" where
  "truthy JNull = False"
| "truthy (JBool b) = b"
| "truthy (JInt n) = (n \<noteq> 0)"
| "truthy (JStr s) = (s \<noteq> [])"
| "truthy (JArray xs) = (xs \<noteq> [])"
| "truthy (JObject kvs) = (kvs \<noteq> [])"

text \<open>
  \<^verbatim>\<open>todo.id == todo_id\<close> compares an int with a decoded value: it holds for the same
  integer and for the bools, which are the integers 0 and 1 in Python, and for nothing
  else. \<open>int_of_json\<close> is the integer a value is equal to, if there is one.
\<close>

fun int_of_json :: "json \<Rightarrow> int option" where
  "int_of_json (JInt n) = Some n"
| "int_of_json (JBool b) = Some (if b then 1 else 0)"
| "int_of_json _ = None"

text \<open>Lists and dicts cannot be dictionary keys: looking one up raises \<^verbatim>\<open>TypeError\<close>.\<close>

fun unhashable :: "json \<Rightarrow> bool" where
  "unhashable (JArray xs) = True"
| "unhashable (JObject kvs) = True"
| "unhashable _ = False"

definition dict_get :: "(string \<times> json) list \<Rightarrow> string \<Rightarrow> json" where
  "dict_get kvs k = (case map_of kvs k of None \<Rightarrow> JNull | Some v \<Rightarrow> v)"

definition dict_get_default :: "(string \<times> json) list \<Rightarrow> string \<Rightarrow> json \<Rightarrow> json" where
  "dict_get_default kvs k d = (case map_of kvs k of None \<Rightarrow> d | Some v \<Rightarrow> v)"

section \<open>The store of \<^verbatim>\<open>todo_app.py\<close>\<close>

text \<open>
  \<^verbatim>\<open>todo_app.Todo\<close> is a plain class: its attributes hold whatever the caller passes, and
  \<^verbatim>\<open>execute_action\<close> passes decoded JSON values. The constructor reads the clock twice,
  once for each timestamp.
\<close>

type_synonym app_todo = "(json, json, json) todo"

definition Todo_init ::
  "timestamp \<Rightarrow> timestamp \<Rightarrow> int \<Rightarrow> json \<Rightarrow> json \<Rightarrow> json \<Rightarrow> app_todo" where
  "Todo_init now1 now2 i ttl descr st =
     \<lparr>todo_id = i, title = ttl, description = descr, status = st,
      created_at = now1, updated_at = now2\<rparr>"

definition add_todo ::
  "timestamp \<Rightarrow> timestamp \<Rightarrow> json \<Rightarrow> json \<Rightarrow> json \<Rightarrow> app_todo store
     \<Rightarrow> app_todo \<times> app_todo store" where
  "add_todo now1 now2 ttl descr st s =
     (let todo = Todo_init now1 now2 (next_id s) ttl descr st
      in (todo, s\<lparr>todos := todos s @ [todo], next_id := next_id s + 1\<rparr>))"

definition TodoApp_get_todo :: "int \<Rightarrow> app_todo store \<Rightarrow> app_todo option" where
  "TodoApp_get_todo i s = find_by_id i (todos s)"

text \<open>
  The body of \<^verbatim>\<open>TodoApp.update_todo\<close> after the lookup: \<^verbatim>\<open>if title:\<close>,
  \<^verbatim>\<open>if description is not None:\<close>, \<^verbatim>\<open>if status:\<close>, then the refresh of \<^verbatim>\<open>updated_at\<close>.
\<close>

definition assign_fields :: "timestamp \<Rightarrow> json \<Rightarrow> json \<Rightarrow> json \<Rightarrow> app_todo \<Rightarrow> app_todo" where
  "assign_fields now ttl descr st todo =
     todo\<lparr>title := (if truthy ttl then ttl else title todo),
          description := (if descr \<noteq> JNull then descr else description todo),
          status := (if truthy st then st else status todo),
          updated_at := now\<rparr>"

text \<open>
  \<^verbatim>\<open>TodoApp.update_todo\<close> looks the record up with \<^verbatim>\<open>get_todo\<close> and assigns to the object it
  got, which is the first record of the list with that id.
\<close>

definition TodoApp_update_todo ::
  "timestamp \<Rightarrow> int \<Rightarrow> json \<Rightarrow> json \<Rightarrow> json \<Rightarrow> app_todo store \<Rightarrow> bool \<times> app_todo store" where
  "TodoApp_update_todo now i ttl descr st s =
     (case set_by_id i (assign_fields now ttl descr st) (todos s) of
        None \<Rightarrow> (False, s)
      | Some (todo, ts) \<Rightarrow> (True, s\<lparr>todos := ts\<rparr>))"

definition TodoApp_delete_todo :: "int \<Rightarrow> app_todo store \<Rightarrow> bool \<times> app_todo store" where
  "TodoApp_delete_todo i s =
     (case pop_by_id i (todos s) of
        None \<Rightarrow> (False, s)
      | Some ts \<Rightarrow> (True, s\<lparr>todos := ts\<rparr>))"

definition list_todos :: "app_todo store \<Rightarrow> app_todo list" where
  "list_todos s = todos s"

section \<open>Replies and exceptions\<close>

text \<open>The exceptions the handlers of the two front ends can catch.\<close>

datatype exn =
    JSONDecodeError
  | RecursionError
  | AttributeError
  | TypeError
  | ValueError
  | PydanticValidationError
  | ServiceFailure

text \<open>
  Both front ends answer with a message string. A reply is the message template with
  the data it is filled with:
  \<^item> \<open>NoTodosFound\<close>: \<^verbatim>\<open>No todos found\<close>; \<open>AllTodos\<close>: \<^verbatim>\<open>All Todos:\<close> with a line for every record;
  \<^item> \<open>TodoIdRequired\<close>: \<^verbatim>\<open>Todo ID required\<close> (\<^verbatim>\<open>Todo ID is required\<close>);
  \<^item> \<open>TitleRequired\<close>: \<^verbatim>\<open>Title required\<close> (\<^verbatim>\<open>Title is required\<close>);
  \<^item> \<open>TodoNotFound\<close>: \<^verbatim>\<open>Todo {todo_id} not found\<close>; \<open>TodoDetails\<close>: the record rendered;
  \<^item> \<open>Created\<close>, \<open>Updated\<close>, \<open>UpdatedTodo\<close>, \<open>Deleted\<close>: the success messages;
  \<^item> \<open>UnknownAction\<close>: \<^verbatim>\<open>Unknown action: {action}\<close>;
  \<^item> \<open>ErrorCreating\<close>: \<^verbatim>\<open>Error creating todo: {e}\<close>; \<open>ErrorExecuting\<close>: \<^verbatim>\<open>Error executing action: {e}\<close>;
  \<^item> \<open>ErrorParsing\<close>: \<^verbatim>\<open>Error parsing Gemini response: {e}\<close>, the handler of
    \<^verbatim>\<open>json.JSONDecodeError\<close>; \<open>ErrorProcessing\<close>: \<^verbatim>\<open>Error processing request: {e}\<close>;
  \<^item> \<open>Error\<close>: \<^verbatim>\<open>Error: {e}\<close>, the one handler of \<^verbatim>\<open>todo_app.py\<close>;
  \<^item> \<open>AINotAvailable\<close>: \<^verbatim>\<open>Gemini AI not available\<close>.
\<close>

datatype 'a reply =
    NoTodosFound
  | AllTodos "'a list"
  | TodoIdRequired
  | TitleRequired
  | TodoNotFound json
  | TodoDetails 'a
  | Created 'a
  | Updated json
  | UpdatedTodo 'a
  | Deleted json
  | UnknownAction json
  | ErrorCreating exn
  | ErrorExecuting exn
  | ErrorParsing
  | ErrorProcessing exn
  | Error exn
  | AINotAvailable

text \<open>
  What the text-generation service gives back: the call raises, or it returns a text.
\<close>

datatype service_result = ServiceRaises | ServiceText string

text \<open>
  \<^verbatim>\<open>json.loads\<close> is library code and is a parameter \<open>loads\<close> of the resolvers, applied to
  the stripped text. It returns the decoded value or it raises: \<^verbatim>\<open>JSONDecodeError\<close> on a
  text that it cannot parse, and other exceptions as well, \<^verbatim>\<open>RecursionError\<close> on nesting
  beyond the recursion limit and \<^verbatim>\<open>ValueError\<close> on an integer literal beyond the digit
  limit. \<^verbatim>\<open>JSONDecodeError\<close> is a subclass of \<^verbatim>\<open>ValueError\<close>, so a handler of
  \<^verbatim>\<open>json.JSONDecodeError\<close> does not catch a plain \<^verbatim>\<open>ValueError\<close>.
\<close>

datatype loads_result = Decoded json | Raises exn

section \<open>\<^verbatim>\<open>SimpleGeminiClient\<close>\<close>

text \<open>\<^verbatim>\<open>TodoStatus(value)\<close>: the member with that string value, else \<^verbatim>\<open>ValueError\<close>.\<close>

fun TodoStatus_of :: "json \<Rightarrow> exn + TodoStatus" where
  "TodoStatus_of (JStr v) =
     (if v = ''pending'' then Inr PENDING
      else if v = ''in_progress'' then Inr IN_PROGRESS
      else if v = ''completed'' then Inr COMPLETED
      else Inl ValueError)"
| "TodoStatus_of _ = Inl ValueError"

text \<open>
  Validation of a decoded value by a pydantic field of type \<^verbatim>\<open>str\<close> and of type
  \<^verbatim>\<open>Optional[str]\<close>: a string is taken as it is, \<^verbatim>\<open>None\<close> only by the optional field, and
  everything else is a validation error (\<open>None\<close> here).
\<close>

fun str_field :: "json \<Rightarrow> string option" where
  "str_field (JStr v) = Some v"
| "str_field _ = None"

fun optional_str_field :: "json \<Rightarrow> string option option" where
  "optional_str_field JNull = Some None"
| "optional_str_field (JStr v) = Some (Some v)"
| "optional_str_field _ = None"

text \<open>
  The \<^verbatim>\<open>update_data\<close> dictionary of the branch \<^verbatim>\<open>update_todo\<close> and the call
  \<^verbatim>\<open>TodoUpdate(**update_data)\<close>: a key of the parameters is copied when it is there, the
  status through \<^verbatim>\<open>TodoStatus(...)\<close>, which raises first; then pydantic validates.
\<close>

definition passed_field :: "json option \<Rightarrow> string option field option" where
  "passed_field v =
     (case v of None \<Rightarrow> Some Unset | Some x \<Rightarrow> map_option Given (optional_str_field x))"

definition build_update :: "(string \<times> json) list \<Rightarrow> exn + TodoUpdate" where
  "build_update kvs =
     (case (case map_of kvs ''status'' of
              None \<Rightarrow> Inr Unset
            | Some v \<Rightarrow> (case TodoStatus_of v of Inl e \<Rightarrow> Inl e | Inr st \<Rightarrow> Inr (Given (Some st)))) of
        Inl e \<Rightarrow> Inl e
      | Inr st \<Rightarrow>
          (case (passed_field (map_of kvs ''title''), passed_field (map_of kvs ''description'')) of
             (Some t, Some d) \<Rightarrow> Inr \<lparr>u_title = t, u_description = d, u_status = st\<rparr>
           | _ \<Rightarrow> Inl PydanticValidationError))"

definition SimpleGeminiClient_execute_action ::
  "timestamp \<Rightarrow> json \<Rightarrow> json \<Rightarrow> db_todo store \<Rightarrow> db_todo reply \<times> db_todo store" where
  "SimpleGeminiClient_execute_action now action parameters s =
     (if action = JStr ''list_todos'' then
        (if get_todos s = [] then (NoTodosFound, s) else (AllTodos (get_todos s), s))
      else if action = JStr ''get_todo'' then
        (case parameters of
           JObject kvs \<Rightarrow>
             (let todo_id = dict_get kvs ''todo_id'' in
              if \<not> truthy todo_id then (TodoIdRequired, s)
              else (case Option.bind (int_of_json todo_id) (\<lambda>i. get_todo i s) of
                      None \<Rightarrow> (TodoNotFound todo_id, s)
                    | Some todo \<Rightarrow> (TodoDetails todo, s)))
         | _ \<Rightarrow> (ErrorExecuting AttributeError, s))
      else if action = JStr ''create_todo'' then
        (case parameters of
           JObject kvs \<Rightarrow>
             (let ttl = dict_get kvs ''title'' in
              if \<not> truthy ttl then (TitleRequired, s)
              else
                (let descr = dict_get_default kvs ''description'' (JStr []);
                     st = dict_get_default kvs ''status'' (JStr ''pending'')
                 in case TodoStatus_of st of
                      Inl e \<Rightarrow> (ErrorCreating e, s)
                    | Inr st' \<Rightarrow>
                        (case (str_field ttl, optional_str_field descr) of
                           (Some t, Some d) \<Rightarrow>
                             (let (todo, s') =
                                    create_todo now \<lparr>c_title = t, c_description = d, c_status = st'\<rparr> s
                              in (Created todo, s'))
                         | _ \<Rightarrow> (ErrorCreating PydanticValidationError, s))))
         | _ \<Rightarrow> (ErrorExecuting AttributeError, s))
      else if action = JStr ''update_todo'' then
        (case parameters of
           JObject kvs \<Rightarrow>
             (let todo_id = dict_get kvs ''todo_id'' in
              if \<not> truthy todo_id then (TodoIdRequired, s)
              else
                (case build_update kvs of
                   Inl e \<Rightarrow> (ErrorExecuting e, s)
                 | Inr todo_update \<Rightarrow>
                     (case int_of_json todo_id of
                        None \<Rightarrow> (TodoNotFound todo_id, s)
                      | Some i \<Rightarrow>
                          (case update_todo now i todo_update s of
                             (None, s') \<Rightarrow> (TodoNotFound todo_id, s')
                           | (Some updated_todo, s') \<Rightarrow> (UpdatedTodo updated_todo, s')))))
         | _ \<Rightarrow> (ErrorExecuting AttributeError, s))
      else if action = JStr ''delete_todo'' then
        (case parameters of
           JObject kvs \<Rightarrow>
             (let todo_id = dict_get kvs ''todo_id'' in
              if \<not> truthy todo_id then (TodoIdRequired, s)
              else
                (case int_of_json todo_id of
                   None \<Rightarrow> (TodoNotFound todo_id, s)
                 | Some i \<Rightarrow>
                     (case delete_todo i s of
                        (True, s') \<Rightarrow> (Deleted todo_id, s')
                      | (False, s') \<Rightarrow> (TodoNotFound todo_id, s'))))
         | _ \<Rightarrow> (ErrorExecuting AttributeError, s))
      else (UnknownAction action, s))"

text \<open>
  The \<^verbatim>\<open>try\<close> block of \<^verbatim>\<open>process_natural_language\<close> up to the call of the executor: the
  service call, \<^verbatim>\<open>json.loads\<close>, and the two \<^verbatim>\<open>.get\<close> calls on the decoded value, which
  raise \<^verbatim>\<open>AttributeError\<close> on anything but a dict. \<open>Inl\<close> is the reply of a handler,
  \<open>Inr\<close> the action and the parameters handed to \<^verbatim>\<open>execute_action\<close>. The handler of
  \<^verbatim>\<open>json.JSONDecodeError\<close> comes first; \<^verbatim>\<open>except Exception\<close> catches every other exception,
  those that \<^verbatim>\<open>json.loads\<close> raises too.
\<close>

definition SimpleGeminiClient_resolve ::
  "(string \<Rightarrow> loads_result) \<Rightarrow> service_result \<Rightarrow> db_todo reply + json \<times> json" where
  "SimpleGeminiClient_resolve loads response =
     (case response of
        ServiceRaises \<Rightarrow> Inl (ErrorProcessing ServiceFailure)
      | ServiceText response_text \<Rightarrow>
          (case loads response_text of
             Raises e \<Rightarrow>
               (if e = JSONDecodeError then Inl ErrorParsing else Inl (ErrorProcessing e))
           | Decoded (JObject action_data) \<Rightarrow>
               Inr (dict_get action_data ''action'',
                    dict_get_default action_data ''parameters'' (JObject []))
           | Decoded _ \<Rightarrow> Inl (ErrorProcessing AttributeError)))"

definition process_natural_language ::
  "timestamp \<Rightarrow> (string \<Rightarrow> loads_result) \<Rightarrow> service_result \<Rightarrow> db_todo store
     \<Rightarrow> db_todo reply \<times> db_todo store" where
  "process_natural_language now loads response s =
     (case SimpleGeminiClient_resolve loads response of
        Inl failure \<Rightarrow> (failure, s)
      | Inr (action, parameters) \<Rightarrow> SimpleGeminiClient_execute_action now action parameters s)"

section \<open>\<^verbatim>\<open>TodoApp\<close>\<close>

text \<open>
  \<^verbatim>\<open>TodoApp.execute_action\<close>. The status of a record is the key of a dictionary lookup
  when the record is rendered, which raises \<^verbatim>\<open>TypeError\<close> for a list or a dict. The two
  readings of the clock are the ones the constructor of a record takes; an update takes
  the first.
\<close>

definition TodoApp_execute_action ::
  "timestamp \<Rightarrow> timestamp \<Rightarrow> json \<Rightarrow> json \<Rightarrow> app_todo store \<Rightarrow> app_todo reply \<times> app_todo store" where
  "TodoApp_execute_action now1 now2 action params s =
     (if action = JStr ''list'' then
        (if todos s = [] then (NoTodosFound, s)
         else if list_ex (\<lambda>todo. unhashable (status todo)) (todos s) then (Error TypeError, s)
         else (AllTodos (todos s), s))
      else if action = JStr ''get'' then
        (case params of
           JObject kvs \<Rightarrow>
             (let todo_id = dict_get kvs ''id'' in
              if \<not> truthy todo_id then (TodoIdRequired, s)
              else (case Option.bind (int_of_json todo_id) (\<lambda>i. TodoApp_get_todo i s) of
                      None \<Rightarrow> (TodoNotFound todo_id, s)
                    | Some todo \<Rightarrow>
                        if unhashable (status todo) then (Error TypeError, s)
                        else (TodoDetails todo, s)))
         | _ \<Rightarrow> (Error AttributeError, s))
      else if action = JStr ''create'' then
        (case params of
           JObject kvs \<Rightarrow>
             (let ttl = dict_get kvs ''title'' in
              if \<not> truthy ttl then (TitleRequired, s)
              else
                (let descr = dict_get_default kvs ''description'' (JStr []);
                     st = dict_get_default kvs ''status'' (JStr ''pending'');
                     (todo, s') = add_todo now1 now2 ttl descr st s
                 in (Created todo, s')))
         | _ \<Rightarrow> (Error AttributeError, s))
      else if action = JStr ''update'' then
        (case params of
           JObject kvs \<Rightarrow>
             (let todo_id = dict_get kvs ''id'' in
              if \<not> truthy todo_id then (TodoIdRequired, s)
              else
                (case int_of_json todo_id of
                   None \<Rightarrow> (TodoNotFound todo_id, s)
                 | Some i \<Rightarrow>
                     (case TodoApp_update_todo now1 i (dict_get kvs ''title'')
                             (dict_get kvs ''description'') (dict_get kvs ''status'') s of
                        (True, s') \<Rightarrow> (Updated todo_id, s')
                      | (False, s') \<Rightarrow> (TodoNotFound todo_id, s'))))
         | _ \<Rightarrow> (Error AttributeError, s))
      else if action = JStr ''delete'' then
        (case params of
           JObject kvs \<Rightarrow>
             (let todo_id = dict_get kvs ''id'' in
              if \<not> truthy todo_id then (TodoIdRequired, s)
              else
                (case int_of_json todo_id of
                   None \<Rightarrow> (TodoNotFound todo_id, s)
                 | Some i \<Rightarrow>
                     (case TodoApp_delete_todo i s of
                        (True, s') \<Rightarrow> (Deleted todo_id, s')
                      | (False, s') \<Rightarrow> (TodoNotFound todo_id, s'))))
         | _ \<Rightarrow> (Error AttributeError, s))
      else (UnknownAction action, s))"

text \<open>
  The \<^verbatim>\<open>try\<close> block of \<^verbatim>\<open>process_ai_command\<close> up to the call of the executor; one handler
  catches everything and answers with the exception it caught.
\<close>

definition TodoApp_resolve ::
  "(string \<Rightarrow> loads_result) \<Rightarrow> service_result \<Rightarrow> app_todo reply + json \<times> json" where
  "TodoApp_resolve loads response =
     (case response of
        ServiceRaises \<Rightarrow> Inl (Error ServiceFailure)
      | ServiceText response_text \<Rightarrow>
          (case loads response_text of
             Raises e \<Rightarrow> Inl (Error e)
           | Decoded (JObject action_data) \<Rightarrow>
               Inr (dict_get action_data ''action'',
                    dict_get_default action_data ''parameters'' (JObject []))
           | Decoded _ \<Rightarrow> Inl (Error AttributeError)))"

text \<open>\<open>gemini_model\<close> says whether \<^verbatim>\<open>self.gemini_model\<close> is set.\<close>

definition process_ai_command ::
  "bool \<Rightarrow> timestamp \<Rightarrow> timestamp \<Rightarrow> (string \<Rightarrow> loads_result) \<Rightarrow> service_result
     \<Rightarrow> app_todo store \<Rightarrow> app_todo reply \<times> app_todo store" where
  "process_ai_command gemini_model now1 now2 loads response s =
     (if \<not> gemini_model then (AINotAvailable, s)
      else (case TodoApp_resolve loads response of
              Inl failure \<Rightarrow> (failure, s)
            | Inr (action, params) \<Rightarrow> TodoApp_execute_action now1 now2 action params s))"

section \<open>Sequences of store operations\<close>

text \<open>
  A call of one of the five functions of \<^verbatim>\<open>database.py\<close> with its arguments and the
  reading of the clock it takes, and what the call returns.
\<close>

datatype db_op =
    Create timestamp TodoCreate
  | Update timestamp int TodoUpdate
  | Delete int
  | Get int
  | GetAll

datatype 'a outcome =
    Made 'a
  | Found "'a option"
  | Done bool
  | Listing "'a list"

fun db_call :: "db_op \<Rightarrow> db_todo store \<Rightarrow> db_todo outcome \<times> db_todo store" where
  "db_call (Create now todo_data) s = (let (todo, s') = create_todo now todo_data s in (Made todo, s'))"
| "db_call (Update now i todo_data) s = (let (r, s') = update_todo now i todo_data s in (Found r, s'))"
| "db_call (Delete i) s = (let (b, s') = delete_todo i s in (Done b, s'))"
| "db_call (Get i) s = (Found (get_todo i s), s)"
| "db_call GetAll s = (Listing (get_todos s), s)"

text \<open>The same for the five methods of \<^verbatim>\<open>TodoApp\<close>.\<close>

datatype app_op =
    Add timestamp timestamp json json json
  | Change timestamp int json json json
  | Remove int
  | Look int
  | LookAll

fun app_call :: "app_op \<Rightarrow> app_todo store \<Rightarrow> app_todo outcome \<times> app_todo store" where
  "app_call (Add now1 now2 ttl descr st) s =
     (let (todo, s') = add_todo now1 now2 ttl descr st s in (Made todo, s'))"
| "app_call (Change now i ttl descr st) s =
     (let (b, s') = TodoApp_update_todo now i ttl descr st s in (Done b, s'))"
| "app_call (Remove i) s = (let (b, s') = TodoApp_delete_todo i s in (Done b, s'))"
| "app_call (Look i) s = (Found (TodoApp_get_todo i s), s)"
| "app_call LookAll s = (Listing (list_todos s), s)"

text \<open>Calls made one after the other: what each returned, in call order, and the final store.\<close>

fun calls :: "('c \<Rightarrow> 's \<Rightarrow> 'r \<times> 's) \<Rightarrow> 'c list \<Rightarrow> 's \<Rightarrow> 'r list \<times> 's" where
  "calls f [] s = ([], s)"
| "calls f (c # cs) s =
     (let (r, s') = f c s; (rs, s'') = calls f cs s' in (r # rs, s''))"

text \<open>The ids of the records that the create calls returned, in call order.\<close>

fun made_ids :: "('t, 'd, 's) todo outcome list \<Rightarrow> int list" where
  "made_ids [] = []"
| "made_ids (Made todo # rs) = todo_id todo # made_ids rs"
| "made_ids (r # rs) = made_ids rs"

text \<open>The ids in the store are pairwise different and below the counter.\<close>

definition store_inv :: "('t, 'd, 's) todo store \<Rightarrow> bool" where
  "store_inv s \<longleftrightarrow>
     distinct (map todo_id (todos s)) \<and> list_all (\<lambda>todo. todo_id todo < next_id s) (todos s)"

text \<open>The calls that only read.\<close>

fun db_read :: "db_op \<Rightarrow> bool" where
  "db_read (Get i) = True"
| "db_read GetAll = True"
| "db_read _ = False"

fun app_read :: "app_op \<Rightarrow> bool" where
  "app_read (Look i) = True"
| "app_read LookAll = True"
| "app_read _ = False"

text \<open>\<^verbatim>\<open>isinstance(v, dict)\<close>: the decoded value is a JSON object.\<close>

fun is_dict :: "json \<Rightarrow> bool" where
  "is_dict (JObject kvs) = True"
| "is_dict _ = False"

text \<open>
  Every record was created no later than it was last updated, and no timestamp is later
  than the clock reading \<open>c\<close>.
\<close>

definition stamps_ok :: "timestamp \<Rightarrow> ('t, 'd, 's) todo store \<Rightarrow> bool" where
  "stamps_ok c s \<longleftrightarrow>
     list_all (\<lambda>todo. created_at todo \<le> updated_at todo \<and> updated_at todo \<le> c) (todos s)"

text \<open>
  The clock does not run backwards: starting from the reading \<open>c\<close>, no reading that a call
  of the sequence takes is earlier than the one before it.
\<close>

fun db_clock :: "timestamp \<Rightarrow> db_op list \<Rightarrow> bool" where
  "db_clock c [] = True"
| "db_clock c (Create now todo_data # cs) = (c \<le> now \<and> db_clock now cs)"
| "db_clock c (Update now i todo_data # cs) = (c \<le> now \<and> db_clock now cs)"
| "db_clock c (Delete i # cs) = db_clock c cs"
| "db_clock c (Get i # cs) = db_clock c cs"
| "db_clock c (GetAll # cs) = db_clock c cs"

fun app_clock :: "timestamp \<Rightarrow> app_op list \<Rightarrow> bool" where
  "app_clock c [] = True"
| "app_clock c (Add now1 now2 ttl descr st # cs) = (c \<le> now1 \<and> now1 \<le> now2 \<and> app_clock now2 cs)"
| "app_clock c (Change now i ttl descr st # cs) = (c \<le> now \<and> app_clock now cs)"
| "app_clock c (Remove i # cs) = app_clock c cs"
| "app_clock c (Look i # cs) = app_clock c cs"
| "app_clock c (LookAll # cs) = app_clock c cs"

section \<open>Facts about the loops\<close>

lemma find_by_id_None: "find_by_id i ts = None \<longleftrightarrow> i \<notin> todo_id ` set ts"
  by (induction ts) auto

lemma find_by_id_Some: "find_by_id i ts = Some t \<Longrightarrow> t \<in> set ts \<and> todo_id t = i"
  by (induction ts) (auto split: if_splits)

lemma pop_by_id_None: "pop_by_id i ts = None \<longleftrightarrow> i \<notin> todo_id ` set ts"
  by (induction ts) auto

lemma pop_by_id_ids: "pop_by_id i ts = Some ts' \<Longrightarrow> map todo_id ts' = remove1 i (map todo_id ts)"
  by (induction ts arbitrary: ts') (auto split: if_splits)

lemma pop_by_id_subset: "pop_by_id i ts = Some ts' \<Longrightarrow> set ts' \<subseteq> set ts"
  by (induction ts arbitrary: ts') (auto split: if_splits)

lemma pop_by_id_gone:
  assumes "pop_by_id i ts = Some ts'" and "distinct (map todo_id ts)"
  shows "find_by_id i ts' = None"
proof -
  have "map todo_id ts' = remove1 i (map todo_id ts)"
    using assms(1) by (rule pop_by_id_ids)
  then have "i \<notin> set (map todo_id ts')"
    using assms(2) by simp
  then show ?thesis
    by (simp add: find_by_id_None)
qed

lemma set_by_id_None: "set_by_id i f ts = None \<longleftrightarrow> i \<notin> todo_id ` set ts"
  by (induction ts) auto

lemma set_by_id_ids:
  "\<forall>t. todo_id (f t) = todo_id t \<Longrightarrow> set_by_id i f ts = Some (r, ts')
     \<Longrightarrow> map todo_id ts' = map todo_id ts"
  by (induction ts arbitrary: ts') (auto split: if_splits)

lemma set_by_id_result:
  "set_by_id i f ts = Some (r, ts') \<Longrightarrow> \<exists>t. find_by_id i ts = Some t \<and> r = f t"
  by (induction ts arbitrary: ts') (auto split: if_splits)

lemma set_by_id_stored:
  "\<forall>t. todo_id (f t) = todo_id t \<Longrightarrow> set_by_id i f ts = Some (r, ts')
     \<Longrightarrow> find_by_id i ts' = Some r"
  by (induction ts arbitrary: ts') (auto split: if_splits)

lemma set_by_id_others:
  "\<forall>t. todo_id (f t) = todo_id t \<Longrightarrow> set_by_id i f ts = Some (r, ts') \<Longrightarrow> j \<noteq> i
     \<Longrightarrow> find_by_id j ts' = find_by_id j ts"
  by (induction ts arbitrary: ts') (auto split: if_splits)

lemma set_by_id_members:
  "set_by_id i f ts = Some (r, ts') \<Longrightarrow> t' \<in> set ts' \<Longrightarrow> t' \<in> set ts \<or> (\<exists>t \<in> set ts. t' = f t)"
  by (induction ts arbitrary: ts') (auto split: if_splits)

lemma apply_update_id [simp]: "todo_id (apply_update now u t) = todo_id t"
  by (simp add: apply_update_def)

lemma assign_fields_id [simp]: "todo_id (assign_fields now ttl descr st t) = todo_id t"
  by (simp add: assign_fields_def)

section \<open>The id counter\<close>

lemma next_id_update_todo: "next_id (snd (update_todo now i u s)) = next_id s"
  by (simp add: update_todo_def split: option.splits prod.splits)

lemma next_id_delete_todo: "next_id (snd (delete_todo i s)) = next_id s"
  by (simp add: delete_todo_def split: option.splits)

lemma next_id_TodoApp_update_todo:
  "next_id (snd (TodoApp_update_todo now i ttl descr st s)) = next_id s"
  by (simp add: TodoApp_update_todo_def split: option.splits prod.splits)

lemma next_id_TodoApp_delete_todo: "next_id (snd (TodoApp_delete_todo i s)) = next_id s"
  by (simp add: TodoApp_delete_todo_def split: option.splits)

lemma db_call_next_id: "next_id s \<le> next_id (snd (db_call c s))"
  by (cases c)
    (simp_all add: create_todo_def Let_def split_beta next_id_update_todo next_id_delete_todo)

lemma db_call_Made:
  "fst (db_call c s) = Made t
     \<Longrightarrow> todo_id t = next_id s \<and> next_id (snd (db_call c s)) = next_id s + 1"
  by (cases c) (auto simp add: create_todo_def Let_def split_beta)

lemma app_call_next_id: "next_id s \<le> next_id (snd (app_call c s))"
  by (cases c)
    (simp_all add: add_todo_def Let_def split_beta next_id_TodoApp_update_todo
       next_id_TodoApp_delete_todo)

lemma app_call_Made:
  "fst (app_call c s) = Made t
     \<Longrightarrow> todo_id t = next_id s \<and> next_id (snd (app_call c s)) = next_id s + 1"
  by (cases c) (auto simp add: add_todo_def Todo_init_def Let_def split_beta)

text \<open>
  For any functions whose calls never lower the counter and whose created records take
  the counter as id and raise it by one: the ids created by a sequence of calls are
  strictly increasing and lie between the counter before and the counter after.
\<close>

lemma made_ids_bounds:
  assumes mono: "\<And>c s. next_id s \<le> next_id (snd (f c s))"
    and made: "\<And>c s t. fst (f c s) = Made t \<Longrightarrow>
                 todo_id t = next_id s \<and> next_id (snd (f c s)) = next_id s + 1"
  shows "sorted_wrt (<) (made_ids (fst (calls f cs s))) \<and>
         (\<forall>i \<in> set (made_ids (fst (calls f cs s))).
            next_id s \<le> i \<and> i < next_id (snd (calls f cs s))) \<and>
         next_id s \<le> next_id (snd (calls f cs s))"
proof (induction cs arbitrary: s)
  case Nil
  show ?case by simp
next
  case (Cons c cs)
  let ?s' = "snd (f c s)"
  note IH = Cons.IH [of ?s']
  have le: "next_id s \<le> next_id ?s'" by (rule mono)
  show ?case
  proof (cases "fst (f c s)")
    case (Made t)
    from made [OF Made] have t: "todo_id t = next_id s" and n: "next_id ?s' = next_id s + 1"
      by simp_all
    show ?thesis
      using IH Made t n by (auto simp add: split_beta Let_def)
  next
    case (Found x)
    then show ?thesis using IH le by (auto simp add: split_beta Let_def)
  next
    case (Done x)
    then show ?thesis using IH le by (auto simp add: split_beta Let_def)
  next
    case (Listing x)
    then show ?thesis using IH le by (auto simp add: split_beta Let_def)
  qed
qed

section \<open>A run of the store\<close>

text \<open>
  The scenario of the specification, run on the model: create \<open>A\<close>, create \<open>B\<close>, set the
  status of record 1 to completed, delete record 2, list.
\<close>

lemma scenario_of_the_specification:
  "calls db_call
      [Create 1 \<lparr>c_title = ''A'', c_description = None, c_status = PENDING\<rparr>,
       Create 2 \<lparr>c_title = ''B'', c_description = None, c_status = PENDING\<rparr>,
       Update 3 1 \<lparr>u_title = Unset, u_description = Unset, u_status = Given (Some COMPLETED)\<rparr>,
       Delete 2,
       GetAll]
      empty_store
   = ([Made \<lparr>todo_id = 1, title = Some ''A'', description = None, status = Some PENDING,
              created_at = 1, updated_at = 1\<rparr>,
       Made \<lparr>todo_id = 2, title = Some ''B'', description = None, status = Some PENDING,
              created_at = 2, updated_at = 2\<rparr>,
       Found (Some \<lparr>todo_id = 1, title = Some ''A'', description = None, status = Some COMPLETED,
                     created_at = 1, updated_at = 3\<rparr>),
       Done True,
       Listing [\<lparr>todo_id = 1, title = Some ''A'', description = None, status = Some COMPLETED,
                  created_at = 1, updated_at = 3\<rparr>]],
      \<lparr>todos = [\<lparr>todo_id = 1, title = Some ''A'', description = None, status = Some COMPLETED,
                  created_at = 1, updated_at = 3\<rparr>],
       next_id = 3\<rparr>)"
  by (simp add: create_todo_def update_todo_def delete_todo_def get_todos_def apply_update_def
      empty_store_def Let_def)

section \<open>The claims\<close>

text \<open>
  C1. For every sequence of calls of the store functions, in any interleaving of create,
  update, delete and the reads, and from any store: the ids of the records that the create
  calls return are strictly increasing in call order, hence pairwise different, so an id
  is never given out twice, also not after its record was deleted. This holds for
  \<^verbatim>\<open>database.py\<close> (\<open>db_call\<close>) and for \<^verbatim>\<open>TodoApp\<close> (\<open>app_call\<close>).
\<close>

theorem create_ids_unique_increasing:
  "sorted_wrt (<) (made_ids (fst (calls db_call cs s))) \<and>
   distinct (made_ids (fst (calls db_call cs s))) \<and>
   sorted_wrt (<) (made_ids (fst (calls app_call cs' s'))) \<and>
   distinct (made_ids (fst (calls app_call cs' s')))"
proof -
  have db: "sorted_wrt (<) (made_ids (fst (calls db_call cs s)))"
    using made_ids_bounds [of db_call cs s, OF db_call_next_id db_call_Made] by blast
  have app: "sorted_wrt (<) (made_ids (fst (calls app_call cs' s')))"
    using made_ids_bounds [of app_call cs' s', OF app_call_next_id app_call_Made] by blast
  show ?thesis
    using db app strict_sorted_iff by blast
qed

theorem create_ids_unique_increasing_witness:
  "made_ids (fst (calls db_call
      [Create 1 \<lparr>c_title = ''A'', c_description = None, c_status = PENDING\<rparr>,
       Delete 1,
       Create 2 \<lparr>c_title = ''B'', c_description = None, c_status = PENDING\<rparr>,
       Update 3 2 \<lparr>u_title = Given (Some ''C''), u_description = Unset, u_status = Unset\<rparr>,
       Create 4 \<lparr>c_title = ''D'', c_description = None, c_status = PENDING\<rparr>]
      empty_store)) = [1, 2, 3] \<and>
   sorted_wrt (<) [1, 2, 3 :: int] \<and>
   made_ids (fst (calls app_call
      [Add 1 1 (JStr ''A'') (JStr []) (JStr ''pending''),
       Remove 1,
       Add 2 2 (JStr ''B'') (JStr []) (JStr ''pending'')]
      empty_store)) = [1, 2]"
  using create_ids_unique_increasing [of
      "[Create 1 \<lparr>c_title = ''A'', c_description = None, c_status = PENDING\<rparr>,
       Delete 1,
       Create 2 \<lparr>c_title = ''B'', c_description = None, c_status = PENDING\<rparr>,
       Update 3 2 \<lparr>u_title = Given (Some ''C''), u_description = Unset, u_status = Unset\<rparr>,
       Create 4 \<lparr>c_title = ''D'', c_description = None, c_status = PENDING\<rparr>]" empty_store
      "[Add 1 1 (JStr ''A'') (JStr []) (JStr ''pending''),
       Remove 1,
       Add 2 2 (JStr ''B'') (JStr []) (JStr ''pending'')]" empty_store]
  by (simp add: create_todo_def update_todo_def delete_todo_def apply_update_def add_todo_def
      Todo_init_def TodoApp_delete_todo_def empty_store_def Let_def)

subsection \<open>The invariant of the ids\<close>

lemma store_inv_empty: "store_inv empty_store"
  by (simp add: store_inv_def empty_store_def)

lemma store_inv_append:
  assumes "store_inv s" and "todo_id t = next_id s"
  shows "store_inv (s\<lparr>todos := todos s @ [t], next_id := next_id s + 1\<rparr>)"
  using assms by (auto simp add: store_inv_def list_all_iff)

lemma store_inv_pop:
  assumes "store_inv s" and "pop_by_id i (todos s) = Some ts"
  shows "store_inv (s\<lparr>todos := ts\<rparr>)"
proof -
  have ids: "map todo_id ts = remove1 i (map todo_id (todos s))"
    using assms(2) by (rule pop_by_id_ids)
  have sub: "set ts \<subseteq> set (todos s)"
    using assms(2) by (rule pop_by_id_subset)
  show ?thesis
    using assms(1) ids sub by (auto simp add: store_inv_def list_all_iff)
qed

lemma store_inv_set:
  assumes "store_inv s" and "\<forall>t. todo_id (f t) = todo_id t"
    and "set_by_id i f (todos s) = Some (r, ts)"
  shows "store_inv (s\<lparr>todos := ts\<rparr>)"
proof -
  have ids: "map todo_id ts = map todo_id (todos s)"
    using assms(2,3) by (rule set_by_id_ids)
  have "set (map todo_id ts) = set (map todo_id (todos s))"
    using ids by simp
  then have "\<forall>t \<in> set ts. todo_id t \<in> todo_id ` set (todos s)"
    by auto
  then show ?thesis
    using assms(1) ids by (auto simp add: store_inv_def list_all_iff)
qed

lemma store_inv_db_call: "store_inv s \<Longrightarrow> store_inv (snd (db_call c s))"
proof (cases c)
  case (Create now d)
  assume "store_inv s"
  then show ?thesis
    using Create store_inv_append [of s] by (simp add: create_todo_def Let_def)
next
  case (Update now i u)
  assume "store_inv s"
  then show ?thesis
    using Update store_inv_set [of s "apply_update now u" i]
    by (auto simp add: update_todo_def split: option.splits)
next
  case (Delete i)
  assume "store_inv s"
  then show ?thesis
    using Delete store_inv_pop [of s i]
    by (auto simp add: delete_todo_def split: option.splits)
qed simp_all

lemma store_inv_app_call: "store_inv s \<Longrightarrow> store_inv (snd (app_call c s))"
proof (cases c)
  case (Add now1 now2 ttl descr st)
  assume "store_inv s"
  then show ?thesis
    using Add store_inv_append [of s] by (simp add: add_todo_def Todo_init_def Let_def)
next
  case (Change now i ttl descr st)
  assume "store_inv s"
  then show ?thesis
    using Change store_inv_set [of s "assign_fields now ttl descr st" i]
    by (auto simp add: TodoApp_update_todo_def split: option.splits)
next
  case (Remove i)
  assume "store_inv s"
  then show ?thesis
    using Remove store_inv_pop [of s i]
    by (auto simp add: TodoApp_delete_todo_def split: option.splits)
qed simp_all

lemma calls_preserves:
  assumes "\<And>c s. P s \<Longrightarrow> P (snd (f c s))" and "P s"
  shows "P (snd (calls f cs s))"
  using assms(2)
proof (induction cs arbitrary: s)
  case Nil
  then show ?case by simp
next
  case (Cons c cs)
  have "P (snd (f c s))" using Cons.prems by (rule assms(1))
  then have "P (snd (calls f cs (snd (f c s))))" by (rule Cons.IH)
  then show ?case by (simp add: split_beta Let_def)
qed

lemma store_inv_reachable:
  "store_inv (snd (calls db_call cs empty_store))"
  "store_inv (snd (calls app_call cs' empty_store))"
  using calls_preserves [of store_inv db_call empty_store cs, OF store_inv_db_call store_inv_empty]
    calls_preserves [of store_inv app_call empty_store cs', OF store_inv_app_call store_inv_empty]
  by simp_all

text \<open>
  C5. In every store whose ids are pairwise different, which every store reached from the
  empty one is (\<open>store_inv_reachable\<close>): \<open>delete\<close> returns \<^verbatim>\<open>True\<close> exactly when a
  record has the id; after a delete that returned \<^verbatim>\<open>True\<close>, \<open>get\<close> of that id finds nothing;
  a delete that returned \<^verbatim>\<open>False\<close> leaves the store as it was. For \<^verbatim>\<open>database.py\<close> and for
  \<^verbatim>\<open>TodoApp\<close>.
\<close>

theorem delete_result_and_effect:
  assumes "store_inv s" and "store_inv s'"
  shows "(fst (delete_todo i s) \<longleftrightarrow> i \<in> todo_id ` set (todos s)) \<and>
         (fst (delete_todo i s) \<longrightarrow> get_todo i (snd (delete_todo i s)) = None) \<and>
         (\<not> fst (delete_todo i s) \<longrightarrow> snd (delete_todo i s) = s) \<and>
         (fst (TodoApp_delete_todo i s') \<longleftrightarrow> i \<in> todo_id ` set (todos s')) \<and>
         (fst (TodoApp_delete_todo i s') \<longrightarrow>
            TodoApp_get_todo i (snd (TodoApp_delete_todo i s')) = None) \<and>
         (\<not> fst (TodoApp_delete_todo i s') \<longrightarrow> snd (TodoApp_delete_todo i s') = s')"
proof -
  have d: "distinct (map todo_id (todos s))" and d': "distinct (map todo_id (todos s'))"
    using assms by (simp_all add: store_inv_def)
  have db: "(fst (delete_todo i s) \<longleftrightarrow> i \<in> todo_id ` set (todos s)) \<and>
         (fst (delete_todo i s) \<longrightarrow> get_todo i (snd (delete_todo i s)) = None) \<and>
         (\<not> fst (delete_todo i s) \<longrightarrow> snd (delete_todo i s) = s)"
  proof (cases "pop_by_id i (todos s)")
    case None
    then show ?thesis
      using pop_by_id_None [of i "todos s"] by (simp add: delete_todo_def)
  next
    case (Some ts)
    then show ?thesis
      using pop_by_id_None [of i "todos s"] pop_by_id_gone [OF Some d]
      by (simp add: delete_todo_def get_todo_def)
  qed
  have app: "(fst (TodoApp_delete_todo i s') \<longleftrightarrow> i \<in> todo_id ` set (todos s')) \<and>
         (fst (TodoApp_delete_todo i s') \<longrightarrow>
            TodoApp_get_todo i (snd (TodoApp_delete_todo i s')) = None) \<and>
         (\<not> fst (TodoApp_delete_todo i s') \<longrightarrow> snd (TodoApp_delete_todo i s') = s')"
  proof (cases "pop_by_id i (todos s')")
    case None
    then show ?thesis
      using pop_by_id_None [of i "todos s'"] by (simp add: TodoApp_delete_todo_def)
  next
    case (Some ts)
    then show ?thesis
      using pop_by_id_None [of i "todos s'"] pop_by_id_gone [OF Some d']
      by (simp add: TodoApp_delete_todo_def TodoApp_get_todo_def)
  qed
  show ?thesis using db app by blast
qed

theorem delete_result_and_effect_witness:
  "store_inv (snd (create_todo 11 \<lparr>c_title = ''B'', c_description = None, c_status = PENDING\<rparr>
       (snd (create_todo 10 \<lparr>c_title = ''A'', c_description = None, c_status = PENDING\<rparr> empty_store)))) \<and>
   store_inv (snd (add_todo 10 10 (JStr ''A'') (JStr []) (JStr ''pending'') empty_store)) \<and>
   fst (delete_todo 1 (snd (create_todo 11 \<lparr>c_title = ''B'', c_description = None, c_status = PENDING\<rparr>
       (snd (create_todo 10 \<lparr>c_title = ''A'', c_description = None, c_status = PENDING\<rparr> empty_store))))) \<and>
   get_todo 1 (snd (delete_todo 1 (snd (create_todo 11 \<lparr>c_title = ''B'', c_description = None, c_status = PENDING\<rparr>
       (snd (create_todo 10 \<lparr>c_title = ''A'', c_description = None, c_status = PENDING\<rparr> empty_store)))))) = None \<and>
   \<not> fst (TodoApp_delete_todo 1 (snd (TodoApp_delete_todo 1
       (snd (add_todo 10 10 (JStr ''A'') (JStr []) (JStr ''pending'') empty_store)))))"
proof -
  let ?s = "snd (create_todo 11 \<lparr>c_title = ''B'', c_description = None, c_status = PENDING\<rparr>
       (snd (create_todo 10 \<lparr>c_title = ''A'', c_description = None, c_status = PENDING\<rparr> empty_store)))"
  let ?a = "snd (add_todo 10 10 (JStr ''A'') (JStr []) (JStr ''pending'') empty_store)"
  have inv: "store_inv ?s"
    by (simp add: store_inv_def create_todo_def empty_store_def Let_def)
  have inv': "store_inv ?a"
    by (simp add: store_inv_def add_todo_def Todo_init_def empty_store_def Let_def)
  show ?thesis
    using inv inv' delete_result_and_effect [OF inv inv', of 1]
    by (simp add: create_todo_def delete_todo_def get_todo_def TodoApp_delete_todo_def
        add_todo_def Todo_init_def empty_store_def Let_def)
qed

subsection \<open>Reads\<close>

lemma reads_db: "list_all db_read cs \<Longrightarrow> calls db_call cs s = (map (\<lambda>c. fst (db_call c s)) cs, s)"
proof (induction cs)
  case Nil
  show ?case by simp
next
  case (Cons c cs)
  then have r: "db_read c" and IH: "calls db_call cs s = (map (\<lambda>c. fst (db_call c s)) cs, s)"
    by simp_all
  from r have "snd (db_call c s) = s"
    by (cases c) simp_all
  then show ?case
    using IH by (simp add: split_beta Let_def)
qed

lemma reads_app: "list_all app_read cs \<Longrightarrow> calls app_call cs s = (map (\<lambda>c. fst (app_call c s)) cs, s)"
proof (induction cs)
  case Nil
  show ?case by simp
next
  case (Cons c cs)
  then have r: "app_read c" and IH: "calls app_call cs s = (map (\<lambda>c. fst (app_call c s)) cs, s)"
    by simp_all
  from r have "snd (app_call c s) = s"
    by (cases c) simp_all
  then show ?case
    using IH by (simp add: split_beta Let_def)
qed

lemma read_actions_db:
  "snd (SimpleGeminiClient_execute_action now (JStr ''list_todos'') parameters s) = s"
  "snd (SimpleGeminiClient_execute_action now (JStr ''get_todo'') parameters s) = s"
  by (simp_all add: SimpleGeminiClient_execute_action_def Let_def split: json.splits option.splits)

lemma read_actions_app:
  "snd (TodoApp_execute_action now1 now2 (JStr ''list'') params s) = s"
  "snd (TodoApp_execute_action now1 now2 (JStr ''get'') params s) = s"
  by (simp_all add: TodoApp_execute_action_def Let_def split: json.splits option.splits)

text \<open>
  C10. The reads are pure. Any sequence of \<open>get\<close> and \<open>list\<close> calls, in any number and
  order, ends in the store it started from, collection and id counter alike, and every one
  of the calls returns what it returns on that store. The executors' \<open>list\<close> and \<open>get\<close>
  actions leave the store unchanged for every parameter value, also when they answer with
  an error.
\<close>

theorem reads_leave_store_unchanged:
  "(list_all db_read cs \<longrightarrow> calls db_call cs s = (map (\<lambda>c. fst (db_call c s)) cs, s)) \<and>
   (list_all app_read cs' \<longrightarrow> calls app_call cs' s' = (map (\<lambda>c. fst (app_call c s')) cs', s')) \<and>
   snd (SimpleGeminiClient_execute_action now (JStr ''list_todos'') parameters s) = s \<and>
   snd (SimpleGeminiClient_execute_action now (JStr ''get_todo'') parameters s) = s \<and>
   snd (TodoApp_execute_action now1 now2 (JStr ''list'') params s') = s' \<and>
   snd (TodoApp_execute_action now1 now2 (JStr ''get'') params s') = s'"
  using reads_db [of cs s] reads_app [of cs' s'] read_actions_db [of now parameters s]
    read_actions_app [of now1 now2 params s']
  by blast

theorem reads_leave_store_unchanged_witness:
  "calls db_call [Get 1, GetAll, Get 2]
      (snd (create_todo 10 \<lparr>c_title = ''A'', c_description = None, c_status = PENDING\<rparr> empty_store))
    = ([Found (Some \<lparr>todo_id = 1, title = Some ''A'', description = None, status = Some PENDING,
                      created_at = 10, updated_at = 10\<rparr>),
        Listing [\<lparr>todo_id = 1, title = Some ''A'', description = None, status = Some PENDING,
                      created_at = 10, updated_at = 10\<rparr>],
        Found None],
       snd (create_todo 10 \<lparr>c_title = ''A'', c_description = None, c_status = PENDING\<rparr> empty_store)) \<and>
   snd (calls app_call [LookAll, Look 1]
      (snd (add_todo 10 11 (JStr ''A'') (JStr []) (JStr ''pending'') empty_store)))
    = snd (add_todo 10 11 (JStr ''A'') (JStr []) (JStr ''pending'') empty_store)"
  using reads_leave_store_unchanged [of "[Get 1, GetAll, Get 2]"
      "snd (create_todo 10 \<lparr>c_title = ''A'', c_description = None, c_status = PENDING\<rparr> empty_store)"
      "[LookAll, Look 1]" "snd (add_todo 10 11 (JStr ''A'') (JStr []) (JStr ''pending'') empty_store)"]
  by (simp add: get_todo_def get_todos_def create_todo_def empty_store_def Let_def)

subsection \<open>The executors\<close>

text \<open>
  C7. An action that is none of the five the executor knows is answered with
  \<^verbatim>\<open>Unknown action\<close> and the store is left as it was, whatever the parameters are: by
  \<^verbatim>\<open>execute_action\<close> itself, and by the whole request when the decoded reply of the service
  is an object that carries this action. \<^verbatim>\<open>TodoApp\<close> knows \<^verbatim>\<open>list\<close>, \<^verbatim>\<open>get\<close>, \<^verbatim>\<open>create\<close>,
  \<^verbatim>\<open>update\<close>, \<^verbatim>\<open>delete\<close>; \<^verbatim>\<open>SimpleGeminiClient\<close> knows the same five under the names
  \<^verbatim>\<open>list_todos\<close> to \<^verbatim>\<open>delete_todo\<close>.
\<close>

theorem unknown_action_rejected:
  "(action \<notin> {JStr ''list'', JStr ''get'', JStr ''create'', JStr ''update'', JStr ''delete''} \<longrightarrow>
      TodoApp_execute_action now1 now2 action params s' = (UnknownAction action, s') \<and>
      (loads text = Decoded (JObject action_data) \<and> map_of action_data ''action'' = Some action \<longrightarrow>
         process_ai_command True now1 now2 loads (ServiceText text) s' = (UnknownAction action, s'))) \<and>
   (action \<notin> {JStr ''list_todos'', JStr ''get_todo'', JStr ''create_todo'', JStr ''update_todo'',
                JStr ''delete_todo''} \<longrightarrow>
      SimpleGeminiClient_execute_action now action parameters s = (UnknownAction action, s) \<and>
      (loads text = Decoded (JObject action_data) \<and> map_of action_data ''action'' = Some action \<longrightarrow>
         process_natural_language now loads (ServiceText text) s = (UnknownAction action, s)))"
  by (simp add: TodoApp_execute_action_def SimpleGeminiClient_execute_action_def
      process_ai_command_def process_natural_language_def TodoApp_resolve_def
      SimpleGeminiClient_resolve_def dict_get_def)

theorem unknown_action_rejected_witness:
  "process_ai_command True 0 0 (\<lambda>text. Decoded (JObject [(''action'', JStr ''archive''), (''parameters'', JObject [])]))
      (ServiceText ''archive it'') empty_store
     = (UnknownAction (JStr ''archive''), empty_store) \<and>
   process_natural_language 0 (\<lambda>text. Decoded (JObject [(''action'', JStr ''archive''), (''parameters'', JObject [])]))
      (ServiceText ''archive it'') empty_store
     = (UnknownAction (JStr ''archive''), empty_store)"
  using unknown_action_rejected [of "JStr ''archive''" 0 0 "JObject []" empty_store
      "\<lambda>text. Decoded (JObject [(''action'', JStr ''archive''), (''parameters'', JObject [])])"
      "''archive it''"
      "[(''action'', JStr ''archive''), (''parameters'', JObject [])]" 0 "JObject []" empty_store]
  by simp

text \<open>
  C8. The action \<open>get\<close> with parameters that hold no id is answered with
  \<^verbatim>\<open>Todo ID required\<close>, the message for the missing parameter, and the store, collection
  and id counter, is left as it was. The key is \<^verbatim>\<open>id\<close> in \<^verbatim>\<open>TodoApp\<close> and \<^verbatim>\<open>todo_id\<close> in
  \<^verbatim>\<open>SimpleGeminiClient\<close>.
\<close>

theorem get_without_id:
  "(map_of kvs ''id'' = None \<longrightarrow>
      TodoApp_execute_action now1 now2 (JStr ''get'') (JObject kvs) s' = (TodoIdRequired, s')) \<and>
   (map_of kvs ''todo_id'' = None \<longrightarrow>
      SimpleGeminiClient_execute_action now (JStr ''get_todo'') (JObject kvs) s = (TodoIdRequired, s))"
  by (simp add: TodoApp_execute_action_def SimpleGeminiClient_execute_action_def dict_get_def)

theorem get_without_id_witness:
  "TodoApp_execute_action 0 0 (JStr ''get'') (JObject [])
      (snd (add_todo 0 0 (JStr ''A'') (JStr []) (JStr ''pending'') empty_store))
     = (TodoIdRequired, snd (add_todo 0 0 (JStr ''A'') (JStr []) (JStr ''pending'') empty_store)) \<and>
   SimpleGeminiClient_execute_action 0 (JStr ''get_todo'') (JObject []) empty_store
     = (TodoIdRequired, empty_store)"
  using get_without_id [of "[]" 0 0 "snd (add_todo 0 0 (JStr ''A'') (JStr []) (JStr ''pending'') empty_store)"
      0 empty_store]
  by simp

subsection \<open>Replies of the service that do not decode to an object\<close>

text \<open>
  Two replies that \<^verbatim>\<open>SimpleGeminiClient\<close> does not answer with its parse error (the handler
  of \<^verbatim>\<open>json.JSONDecodeError\<close>) but with the processing error of its general handler: the
  reply \<^verbatim>\<open>[]\<close>, which decodes to a list, so that \<^verbatim>\<open>.get\<close> raises \<^verbatim>\<open>AttributeError\<close>; and a
  reply of 100000 opening brackets, which is not valid JSON and on which \<^verbatim>\<open>json.loads\<close>
  raises \<^verbatim>\<open>RecursionError\<close>.
\<close>

theorem non_object_reply_counterexample:
  "SimpleGeminiClient_resolve (\<lambda>text. Decoded (JArray [])) (ServiceText ''[]'')
     = Inl (ErrorProcessing AttributeError) \<and>
   SimpleGeminiClient_resolve (\<lambda>text. Decoded (JArray [])) (ServiceText ''[]'') \<noteq> Inl ErrorParsing \<and>
   SimpleGeminiClient_resolve (\<lambda>text. Raises RecursionError)
       (ServiceText (replicate 100000 (CHR ''['')))
     = Inl (ErrorProcessing RecursionError) \<and>
   SimpleGeminiClient_resolve (\<lambda>text. Raises RecursionError)
       (ServiceText (replicate 100000 (CHR ''[''))) \<noteq> Inl ErrorParsing"
  by (simp add: SimpleGeminiClient_resolve_def)

text \<open>
  C6, amended. Whatever \<^verbatim>\<open>json.loads\<close> does with the reply, short of returning an object,
  the resolver fails, stops before the executor is called (\<open>Inl\<close>), and the store is left
  as it was. Which error it fails with depends on what \<^verbatim>\<open>json.loads\<close> did:
  \<^item> it raised \<^verbatim>\<open>JSONDecodeError\<close>: the parse error (\<^verbatim>\<open>Error parsing Gemini response\<close>; in
    \<^verbatim>\<open>TodoApp\<close> the one error message, carrying the \<^verbatim>\<open>JSONDecodeError\<close>);
  \<^item> it raised another exception \<open>e\<close>, as it does with \<^verbatim>\<open>RecursionError\<close> on nesting beyond
    the recursion limit and with \<^verbatim>\<open>ValueError\<close> on an integer literal beyond the digit
    limit: the error of the general handler, carrying \<open>e\<close>;
  \<^item> it returned a value that is not an object: the error of the general handler,
    carrying the \<^verbatim>\<open>AttributeError\<close> of \<^verbatim>\<open>.get\<close>.
\<close>

theorem malformed_reply_stops_before_executor:
  "(loads text = Raises JSONDecodeError \<longrightarrow>
      SimpleGeminiClient_resolve loads (ServiceText text) = Inl ErrorParsing \<and>
      process_natural_language now loads (ServiceText text) s = (ErrorParsing, s) \<and>
      TodoApp_resolve loads (ServiceText text) = Inl (Error JSONDecodeError) \<and>
      process_ai_command True now1 now2 loads (ServiceText text) s' = (Error JSONDecodeError, s')) \<and>
   (loads text = Raises e \<and> e \<noteq> JSONDecodeError \<longrightarrow>
      SimpleGeminiClient_resolve loads (ServiceText text) = Inl (ErrorProcessing e) \<and>
      process_natural_language now loads (ServiceText text) s = (ErrorProcessing e, s) \<and>
      TodoApp_resolve loads (ServiceText text) = Inl (Error e) \<and>
      process_ai_command True now1 now2 loads (ServiceText text) s' = (Error e, s')) \<and>
   (loads text = Decoded v \<and> \<not> is_dict v \<longrightarrow>
      SimpleGeminiClient_resolve loads (ServiceText text) = Inl (ErrorProcessing AttributeError) \<and>
      process_natural_language now loads (ServiceText text) s = (ErrorProcessing AttributeError, s) \<and>
      TodoApp_resolve loads (ServiceText text) = Inl (Error AttributeError) \<and>
      process_ai_command True now1 now2 loads (ServiceText text) s' = (Error AttributeError, s'))"
  by (cases v)
    (simp_all add: SimpleGeminiClient_resolve_def TodoApp_resolve_def
       process_natural_language_def process_ai_command_def)

theorem malformed_reply_stops_before_executor_witness:
  "process_natural_language 0 (\<lambda>text. Raises JSONDecodeError) (ServiceText ''sure, here you go'')
       empty_store
     = (ErrorParsing, empty_store) \<and>
   process_ai_command True 0 0 (\<lambda>text. Raises JSONDecodeError) (ServiceText ''sure, here you go'')
       empty_store
     = (Error JSONDecodeError, empty_store) \<and>
   process_natural_language 0 (\<lambda>text. Raises RecursionError)
       (ServiceText (replicate 100000 (CHR ''['')))
       (snd (create_todo 5 \<lparr>c_title = ''A'', c_description = None, c_status = PENDING\<rparr> empty_store))
     = (ErrorProcessing RecursionError,
        snd (create_todo 5 \<lparr>c_title = ''A'', c_description = None, c_status = PENDING\<rparr> empty_store)) \<and>
   process_ai_command True 0 0 (\<lambda>text. Raises RecursionError)
       (ServiceText (replicate 100000 (CHR ''['')))
       empty_store
     = (Error RecursionError, empty_store) \<and>
   process_natural_language 0 (\<lambda>text. Decoded (JArray [])) (ServiceText ''[]'') empty_store
     = (ErrorProcessing AttributeError, empty_store) \<and>
   process_ai_command True 0 0 (\<lambda>text. Decoded (JArray [])) (ServiceText ''[]'') empty_store
     = (Error AttributeError, empty_store)"
  using malformed_reply_stops_before_executor [of "\<lambda>text. Raises JSONDecodeError"
      "''sure, here you go''" 0 empty_store 0 0 empty_store RecursionError "JArray []"]
    malformed_reply_stops_before_executor [of "\<lambda>text. Raises RecursionError"
      "replicate 100000 (CHR ''['')" 0
      "snd (create_todo 5 \<lparr>c_title = ''A'', c_description = None, c_status = PENDING\<rparr> empty_store)"
      0 0 empty_store RecursionError "JArray []"]
    malformed_reply_stops_before_executor [of "\<lambda>text. Decoded (JArray [])" "''[]''"
      0 empty_store 0 0 empty_store RecursionError "JArray []"]
  by simp

subsection \<open>Creating\<close>

lemma find_by_id_append_new:
  "i \<notin> todo_id ` set ts \<Longrightarrow> todo_id t = i \<Longrightarrow> find_by_id i (ts @ [t]) = Some t"
  by (induction ts) auto

lemma store_inv_fresh: "store_inv s \<Longrightarrow> next_id s \<notin> todo_id ` set (todos s)"
  by (auto simp add: store_inv_def list_all_iff)

text \<open>
  The store's create with an empty title does not fail: it returns a record with the
  empty title and adds it to the store.
\<close>

theorem create_with_empty_title_counterexample:
  "create_todo 0 \<lparr>c_title = [], c_description = None, c_status = PENDING\<rparr> empty_store
     = (\<lparr>todo_id = 1, title = Some [], description = None, status = Some PENDING,
          created_at = 0, updated_at = 0\<rparr>,
        \<lparr>todos = [\<lparr>todo_id = 1, title = Some [], description = None, status = Some PENDING,
                    created_at = 0, updated_at = 0\<rparr>],
         next_id = 2\<rparr>)"
  by (simp add: create_todo_def empty_store_def Let_def)

text \<open>
  C2, amended. The store's create never fails and does not look at the title: for every
  title, the empty one too, it returns a new record under the next id, which no record of
  the store has, appends it, and a \<open>get\<close> of that id finds it. In \<^verbatim>\<open>database.py\<close>
  \<open>created_at\<close> and \<open>updated_at\<close> are both the creation time; in \<^verbatim>\<open>TodoApp\<close> each is a clock
  reading of its own, taken while the record is built. The empty title is refused one
  layer up: the executors' create action answers a missing or empty title with
  \<^verbatim>\<open>Title required\<close> and leaves the store as it was.
\<close>

theorem create_accepts_every_title:
  assumes "store_inv s" and "store_inv s'"
  shows "created_at (fst (create_todo now todo_data s)) = now \<and>
         updated_at (fst (create_todo now todo_data s)) = now \<and>
         title (fst (create_todo now todo_data s)) = Some (c_title todo_data) \<and>
         todo_id (fst (create_todo now todo_data s)) = next_id s \<and>
         next_id s \<notin> todo_id ` set (todos s) \<and>
         todos (snd (create_todo now todo_data s)) = todos s @ [fst (create_todo now todo_data s)] \<and>
         get_todo (next_id s) (snd (create_todo now todo_data s))
           = Some (fst (create_todo now todo_data s)) \<and>
         created_at (fst (add_todo now1 now2 ttl descr st s')) = now1 \<and>
         updated_at (fst (add_todo now1 now2 ttl descr st s')) = now2 \<and>
         title (fst (add_todo now1 now2 ttl descr st s')) = ttl \<and>
         todo_id (fst (add_todo now1 now2 ttl descr st s')) = next_id s' \<and>
         next_id s' \<notin> todo_id ` set (todos s') \<and>
         todos (snd (add_todo now1 now2 ttl descr st s'))
           = todos s' @ [fst (add_todo now1 now2 ttl descr st s')] \<and>
         TodoApp_get_todo (next_id s') (snd (add_todo now1 now2 ttl descr st s'))
           = Some (fst (add_todo now1 now2 ttl descr st s')) \<and>
         (\<not> truthy (dict_get kvs ''title'') \<longrightarrow>
            SimpleGeminiClient_execute_action now (JStr ''create_todo'') (JObject kvs) s
              = (TitleRequired, s)) \<and>
         (\<not> truthy (dict_get kvs ''title'') \<longrightarrow>
            TodoApp_execute_action now1 now2 (JStr ''create'') (JObject kvs) s'
              = (TitleRequired, s'))"
proof -
  have fresh: "next_id s \<notin> todo_id ` set (todos s)" and fresh': "next_id s' \<notin> todo_id ` set (todos s')"
    using assms by (simp_all add: store_inv_fresh)
  have db: "get_todo (next_id s) (snd (create_todo now todo_data s))
           = Some (fst (create_todo now todo_data s))"
    using fresh by (simp add: get_todo_def create_todo_def Let_def find_by_id_append_new)
  have app: "TodoApp_get_todo (next_id s') (snd (add_todo now1 now2 ttl descr st s'))
           = Some (fst (add_todo now1 now2 ttl descr st s'))"
    using fresh' by (simp add: TodoApp_get_todo_def add_todo_def Todo_init_def Let_def find_by_id_append_new)
  have ex: "\<not> truthy (dict_get kvs ''title'') \<longrightarrow>
            SimpleGeminiClient_execute_action now (JStr ''create_todo'') (JObject kvs) s
              = (TitleRequired, s)"
    by (simp add: SimpleGeminiClient_execute_action_def)
  have ex': "\<not> truthy (dict_get kvs ''title'') \<longrightarrow>
            TodoApp_execute_action now1 now2 (JStr ''create'') (JObject kvs) s'
              = (TitleRequired, s')"
    by (simp add: TodoApp_execute_action_def)
  have fields: "created_at (fst (create_todo now todo_data s)) = now \<and>
         updated_at (fst (create_todo now todo_data s)) = now \<and>
         title (fst (create_todo now todo_data s)) = Some (c_title todo_data) \<and>
         todo_id (fst (create_todo now todo_data s)) = next_id s \<and>
         todos (snd (create_todo now todo_data s)) = todos s @ [fst (create_todo now todo_data s)]"
    by (simp add: create_todo_def Let_def)
  have fields': "created_at (fst (add_todo now1 now2 ttl descr st s')) = now1 \<and>
         updated_at (fst (add_todo now1 now2 ttl descr st s')) = now2 \<and>
         title (fst (add_todo now1 now2 ttl descr st s')) = ttl \<and>
         todo_id (fst (add_todo now1 now2 ttl descr st s')) = next_id s' \<and>
         todos (snd (add_todo now1 now2 ttl descr st s'))
           = todos s' @ [fst (add_todo now1 now2 ttl descr st s')]"
    by (simp add: add_todo_def Todo_init_def Let_def)
  show ?thesis
    using fresh fresh' db app ex ex' fields fields' by blast
qed

theorem create_accepts_every_title_witness:
  "store_inv (empty_store :: db_todo store) \<and> store_inv (empty_store :: app_todo store) \<and>
   title (fst (create_todo 5 \<lparr>c_title = [], c_description = None, c_status = PENDING\<rparr> empty_store)) = Some [] \<and>
   get_todo 1 (snd (create_todo 5 \<lparr>c_title = [], c_description = None, c_status = PENDING\<rparr> empty_store))
     = Some (fst (create_todo 5 \<lparr>c_title = [], c_description = None, c_status = PENDING\<rparr> empty_store)) \<and>
   SimpleGeminiClient_execute_action 5 (JStr ''create_todo'') (JObject [(''title'', JStr [])]) empty_store
     = (TitleRequired, empty_store) \<and>
   TodoApp_execute_action 5 6 (JStr ''create'') (JObject [(''title'', JStr [])]) empty_store
     = (TitleRequired, empty_store)"
  using store_inv_empty
    create_accepts_every_title [OF store_inv_empty store_inv_empty,
      of 5 "\<lparr>c_title = [], c_description = None, c_status = PENDING\<rparr>" 5 6 "JStr []" "JStr []"
         "JStr ''pending''" "[(''title'', JStr [])]"]
  by (simp add: dict_get_def empty_store_def create_todo_def get_todo_def store_inv_def Let_def)

subsection \<open>Status values outside the enumeration\<close>

text \<open>
  \<^verbatim>\<open>SimpleGeminiClient\<close> converts a supplied status with \<^verbatim>\<open>TodoStatus(...)\<close>: a value that
  is not a member raises, the create and the update action answer with an error and the
  store is left as it was.
\<close>

lemma SimpleGeminiClient_rejects_invalid_status:
  assumes "map_of kvs ''status'' = Some v" and "TodoStatus_of v = Inl e"
  shows "truthy (dict_get kvs ''title'') \<longrightarrow>
           SimpleGeminiClient_execute_action now (JStr ''create_todo'') (JObject kvs) s
             = (ErrorCreating e, s)"
    and "truthy (dict_get kvs ''todo_id'') \<longrightarrow>
           SimpleGeminiClient_execute_action now (JStr ''update_todo'') (JObject kvs) s
             = (ErrorExecuting e, s)"
  using assms
  by (simp_all add: SimpleGeminiClient_execute_action_def dict_get_default_def build_update_def)

text \<open>
  C3. \<^verbatim>\<open>TodoApp.execute_action\<close> does not check the status: the create action with the
  status \<^verbatim>\<open>archived\<close> stores a record with that status, and the update action writes it
  into an existing record. Both answer with the success message.
\<close>

theorem TodoApp_stores_invalid_status:
  "TodoApp_execute_action 0 0 (JStr ''create'')
      (JObject [(''title'', JStr ''A''), (''status'', JStr ''archived'')]) empty_store
     = (Created \<lparr>todo_id = 1, title = JStr ''A'', description = JStr [], status = JStr ''archived'',
                 created_at = 0, updated_at = 0\<rparr>,
        \<lparr>todos = [\<lparr>todo_id = 1, title = JStr ''A'', description = JStr [],
                    status = JStr ''archived'', created_at = 0, updated_at = 0\<rparr>],
         next_id = 2\<rparr>) \<and>
   TodoApp_execute_action 1 1 (JStr ''update'')
      (JObject [(''id'', JInt 1), (''status'', JStr ''archived'')])
      \<lparr>todos = [\<lparr>todo_id = 1, title = JStr ''A'', description = JStr [],
                  status = JStr ''pending'', created_at = 0, updated_at = 0\<rparr>],
       next_id = 2\<rparr>
     = (Updated (JInt 1),
        \<lparr>todos = [\<lparr>todo_id = 1, title = JStr ''A'', description = JStr [],
                    status = JStr ''archived'', created_at = 0, updated_at = 1\<rparr>],
         next_id = 2\<rparr>)"
  by (simp add: TodoApp_execute_action_def dict_get_def dict_get_default_def add_todo_def
      Todo_init_def TodoApp_update_todo_def assign_fields_def empty_store_def Let_def)

subsection \<open>Updating\<close>

lemma update_todo_found:
  assumes "get_todo i s = Some t"
  shows "\<exists>s1. update_todo now i u s = (Some (apply_update now u t), s1) \<and>
           get_todo i s1 = Some (apply_update now u t) \<and>
           next_id s1 = next_id s \<and>
           map todo_id (todos s1) = map todo_id (todos s) \<and>
           (\<forall>j. j \<noteq> i \<longrightarrow> get_todo j s1 = get_todo j s)"
proof -
  have keep: "\<forall>t. todo_id (apply_update now u t) = todo_id t"
    by simp
  from assms have "i \<in> todo_id ` set (todos s)"
    using find_by_id_None [of i "todos s"] by (simp add: get_todo_def)
  then obtain r ts where set: "set_by_id i (apply_update now u) (todos s) = Some (r, ts)"
    using set_by_id_None [of i "apply_update now u" "todos s"] by fastforce
  from set_by_id_result [OF set] assms have r: "r = apply_update now u t"
    by (simp add: get_todo_def)
  show ?thesis
    using set r set_by_id_stored [OF keep set] set_by_id_ids [OF keep set]
      set_by_id_others [OF keep set]
    by (simp add: update_todo_def get_todo_def)
qed

lemma TodoApp_update_todo_found:
  assumes "TodoApp_get_todo i s = Some t"
  shows "\<exists>s1. TodoApp_update_todo now i ttl descr st s = (True, s1) \<and>
           TodoApp_get_todo i s1 = Some (assign_fields now ttl descr st t) \<and>
           next_id s1 = next_id s \<and>
           map todo_id (todos s1) = map todo_id (todos s) \<and>
           (\<forall>j. j \<noteq> i \<longrightarrow> TodoApp_get_todo j s1 = TodoApp_get_todo j s)"
proof -
  have keep: "\<forall>t. todo_id (assign_fields now ttl descr st t) = todo_id t"
    by simp
  from assms have "i \<in> todo_id ` set (todos s)"
    using find_by_id_None [of i "todos s"] by (simp add: TodoApp_get_todo_def)
  then obtain r ts where set: "set_by_id i (assign_fields now ttl descr st) (todos s) = Some (r, ts)"
    using set_by_id_None [of i "assign_fields now ttl descr st" "todos s"] by fastforce
  from set_by_id_result [OF set] assms have r: "r = assign_fields now ttl descr st t"
    by (simp add: TodoApp_get_todo_def)
  show ?thesis
    using set r set_by_id_stored [OF keep set] set_by_id_ids [OF keep set]
      set_by_id_others [OF keep set]
    by (simp add: TodoApp_update_todo_def TodoApp_get_todo_def)
qed

text \<open>
  A record created at the clock reading 5 and updated while the clock still reads 5:
  \<open>updated_at\<close> is 5 before and after, not strictly greater.
\<close>

theorem update_same_clock_reading_counterexample:
  "map updated_at (todos (snd (create_todo 5
       \<lparr>c_title = ''A'', c_description = None, c_status = PENDING\<rparr> empty_store))) = [5] \<and>
   map updated_at (todos (snd (update_todo 5 1
       \<lparr>u_title = Given (Some ''X''), u_description = Unset, u_status = Unset\<rparr>
       (snd (create_todo 5
          \<lparr>c_title = ''A'', c_description = None, c_status = PENDING\<rparr> empty_store))))) = [5]"
  by (simp add: create_todo_def update_todo_def apply_update_def empty_store_def Let_def)

text \<open>
  C4, amended. For every existing id, an update that supplies only the title \<open>X\<close> returns
  the record it stored: the title is \<open>X\<close>; description, status, id and \<open>created_at\<close> are
  what they were; \<open>updated_at\<close> is the clock reading of the call, so it is strictly greater
  than before whenever the clock has advanced past the old value. The id counter and all
  other records are unchanged. (\<^verbatim>\<open>TodoApp.update_todo\<close> assigns a title only if it is not
  empty.)
\<close>

theorem title_update_changes_only_title:
  "(get_todo i s = Some t \<longrightarrow>
      (\<exists>r s1. update_todo now i \<lparr>u_title = Given (Some X), u_description = Unset, u_status = Unset\<rparr> s
                 = (Some r, s1) \<and>
               get_todo i s1 = Some r \<and>
               title r = Some X \<and> description r = description t \<and> status r = status t \<and>
               todo_id r = todo_id t \<and> created_at r = created_at t \<and> updated_at r = now \<and>
               (updated_at t < now \<longrightarrow> updated_at t < updated_at r) \<and>
               next_id s1 = next_id s \<and>
               (\<forall>j. j \<noteq> i \<longrightarrow> get_todo j s1 = get_todo j s))) \<and>
   (TodoApp_get_todo i s' = Some t' \<and> X \<noteq> [] \<longrightarrow>
      (\<exists>r s1. TodoApp_update_todo now i (JStr X) JNull JNull s' = (True, s1) \<and>
               TodoApp_get_todo i s1 = Some r \<and>
               title r = JStr X \<and> description r = description t' \<and> status r = status t' \<and>
               todo_id r = todo_id t' \<and> created_at r = created_at t' \<and> updated_at r = now \<and>
               (updated_at t' < now \<longrightarrow> updated_at t' < updated_at r) \<and>
               next_id s1 = next_id s' \<and>
               (\<forall>j. j \<noteq> i \<longrightarrow> TodoApp_get_todo j s1 = TodoApp_get_todo j s')))"
proof (intro conjI impI)
  assume found: "get_todo i s = Some t"
  let ?u = "\<lparr>u_title = Given (Some X), u_description = Unset, u_status = Unset\<rparr>"
  from update_todo_found [OF found, of now ?u]
  obtain s1 where s1: "update_todo now i ?u s = (Some (apply_update now ?u t), s1)"
    "get_todo i s1 = Some (apply_update now ?u t)" "next_id s1 = next_id s"
    "\<forall>j. j \<noteq> i \<longrightarrow> get_todo j s1 = get_todo j s"
    by blast
  show "\<exists>r s1. update_todo now i ?u s = (Some r, s1) \<and>
               get_todo i s1 = Some r \<and>
               title r = Some X \<and> description r = description t \<and> status r = status t \<and>
               todo_id r = todo_id t \<and> created_at r = created_at t \<and> updated_at r = now \<and>
               (updated_at t < now \<longrightarrow> updated_at t < updated_at r) \<and>
               next_id s1 = next_id s \<and>
               (\<forall>j. j \<noteq> i \<longrightarrow> get_todo j s1 = get_todo j s)"
    using s1 by (intro exI [of _ "apply_update now ?u t"] exI [of _ s1]) (simp add: apply_update_def)
next
  assume "TodoApp_get_todo i s' = Some t' \<and> X \<noteq> []"
  then have found: "TodoApp_get_todo i s' = Some t'" and X: "X \<noteq> []"
    by simp_all
  let ?r = "assign_fields now (JStr X) JNull JNull t'"
  from TodoApp_update_todo_found [OF found, of now "JStr X" JNull JNull]
  obtain s1 where s1: "TodoApp_update_todo now i (JStr X) JNull JNull s' = (True, s1)"
    "TodoApp_get_todo i s1 = Some ?r" "next_id s1 = next_id s'"
    "\<forall>j. j \<noteq> i \<longrightarrow> TodoApp_get_todo j s1 = TodoApp_get_todo j s'"
    by blast
  show "\<exists>r s1. TodoApp_update_todo now i (JStr X) JNull JNull s' = (True, s1) \<and>
               TodoApp_get_todo i s1 = Some r \<and>
               title r = JStr X \<and> description r = description t' \<and> status r = status t' \<and>
               todo_id r = todo_id t' \<and> created_at r = created_at t' \<and> updated_at r = now \<and>
               (updated_at t' < now \<longrightarrow> updated_at t' < updated_at r) \<and>
               next_id s1 = next_id s' \<and>
               (\<forall>j. j \<noteq> i \<longrightarrow> TodoApp_get_todo j s1 = TodoApp_get_todo j s')"
    using s1 X by (intro exI [of _ ?r] exI [of _ s1]) (simp add: assign_fields_def)
qed

theorem title_update_changes_only_title_witness:
  "get_todo 1 (snd (create_todo 5 \<lparr>c_title = ''A'', c_description = None, c_status = PENDING\<rparr> empty_store))
     = Some \<lparr>todo_id = 1, title = Some ''A'', description = None, status = Some PENDING,
             created_at = 5, updated_at = 5\<rparr> \<and>
   update_todo 7 1 \<lparr>u_title = Given (Some ''X''), u_description = Unset, u_status = Unset\<rparr>
      (snd (create_todo 5 \<lparr>c_title = ''A'', c_description = None, c_status = PENDING\<rparr> empty_store))
     = (Some \<lparr>todo_id = 1, title = Some ''X'', description = None, status = Some PENDING,
              created_at = 5, updated_at = 7\<rparr>,
        \<lparr>todos = [\<lparr>todo_id = 1, title = Some ''X'', description = None, status = Some PENDING,
                    created_at = 5, updated_at = 7\<rparr>],
         next_id = 2\<rparr>) \<and>
   TodoApp_get_todo 1 (snd (add_todo 5 5 (JStr ''A'') (JStr ''milk'') (JStr ''pending'') empty_store))
     = Some \<lparr>todo_id = 1, title = JStr ''A'', description = JStr ''milk'', status = JStr ''pending'',
             created_at = 5, updated_at = 5\<rparr> \<and>
   TodoApp_update_todo 7 1 (JStr ''X'') JNull JNull
      (snd (add_todo 5 5 (JStr ''A'') (JStr ''milk'') (JStr ''pending'') empty_store))
     = (True,
        \<lparr>todos = [\<lparr>todo_id = 1, title = JStr ''X'', description = JStr ''milk'',
                    status = JStr ''pending'', created_at = 5, updated_at = 7\<rparr>],
         next_id = 2\<rparr>)"
  using title_update_changes_only_title [of 1
      "snd (create_todo 5 \<lparr>c_title = ''A'', c_description = None, c_status = PENDING\<rparr> empty_store)"
      "\<lparr>todo_id = 1, title = Some ''A'', description = None, status = Some PENDING,
             created_at = 5, updated_at = 5\<rparr>" 7 "''X''"
      "snd (add_todo 5 5 (JStr ''A'') (JStr ''milk'') (JStr ''pending'') empty_store)"
      "\<lparr>todo_id = 1, title = JStr ''A'', description = JStr ''milk'', status = JStr ''pending'',
             created_at = 5, updated_at = 5\<rparr>"]
  by (simp add: get_todo_def create_todo_def update_todo_def apply_update_def TodoApp_get_todo_def
      add_todo_def Todo_init_def TodoApp_update_todo_def assign_fields_def empty_store_def Let_def)

subsection \<open>Timestamps\<close>

lemma stamps_ok_later: "stamps_ok c s \<Longrightarrow> c \<le> c' \<Longrightarrow> stamps_ok c' s"
  by (auto simp add: stamps_ok_def list_all_iff)

lemma stamps_ok_append:
  assumes "stamps_ok c s" and "c \<le> created_at t" and "created_at t \<le> updated_at t"
  shows "stamps_ok (updated_at t) (s\<lparr>todos := todos s @ [t], next_id := n\<rparr>)"
  using assms by (auto simp add: stamps_ok_def list_all_iff)

lemma stamps_ok_pop:
  assumes "stamps_ok c s" and "pop_by_id i (todos s) = Some ts"
  shows "stamps_ok c (s\<lparr>todos := ts\<rparr>)"
  using assms(1) pop_by_id_subset [OF assms(2)]
  by (auto simp add: stamps_ok_def list_all_iff)

lemma stamps_ok_set:
  assumes "stamps_ok c s" and "c \<le> now"
    and f: "\<forall>t. created_at (f t) = created_at t \<and> updated_at (f t) = now"
    and "set_by_id i f (todos s) = Some (r, ts)"
  shows "stamps_ok now (s\<lparr>todos := ts\<rparr>)"
proof -
  have "created_at t' \<le> updated_at t' \<and> updated_at t' \<le> now" if "t' \<in> set ts" for t'
  proof -
    from set_by_id_members [OF assms(4) that]
    consider "t' \<in> set (todos s)" | t where "t \<in> set (todos s)" and "t' = f t"
      by blast
    then show ?thesis
    proof cases
      case 1
      then show ?thesis
        using assms(1,2) by (auto simp add: stamps_ok_def list_all_iff)
    next
      case 2
      then show ?thesis
        using assms(1,2) f by (auto simp add: stamps_ok_def list_all_iff)
    qed
  qed
  then show ?thesis
    by (simp add: stamps_ok_def list_all_iff)
qed

lemma stamps_ok_db_clock:
  "stamps_ok c s \<Longrightarrow> db_clock c cs \<Longrightarrow> \<exists>c'. stamps_ok c' (snd (calls db_call cs s))"
proof (induction c cs arbitrary: s rule: db_clock.induct)
  case (1 c)
  then show ?case by auto
next
  case (2 c now todo_data cs)
  let ?s' = "snd (create_todo now todo_data s)"
  have "stamps_ok now ?s'"
    using stamps_ok_append [of c s "fst (create_todo now todo_data s)" "next_id s + 1"] "2.prems"
    by (simp add: create_todo_def Let_def)
  then show ?case
    using "2.IH" [of ?s'] "2.prems" by (simp add: split_beta Let_def)
next
  case (3 c now i todo_data cs)
  let ?s' = "snd (update_todo now i todo_data s)"
  have "stamps_ok now ?s'"
  proof (cases "set_by_id i (apply_update now todo_data) (todos s)")
    case None
    then show ?thesis
      using "3.prems" stamps_ok_later [of c s now] by (simp add: update_todo_def)
  next
    case (Some p)
    obtain r ts where p: "p = (r, ts)" by (cases p)
    have "stamps_ok now (s\<lparr>todos := ts\<rparr>)"
      using stamps_ok_set [of c s now "apply_update now todo_data" i r ts] "3.prems" Some p
      by (simp add: apply_update_def)
    then show ?thesis
      using Some p by (simp add: update_todo_def)
  qed
  then show ?case
    using "3.IH" [of ?s'] "3.prems" by (simp add: split_beta Let_def)
next
  case (4 c i cs)
  let ?s' = "snd (delete_todo i s)"
  have "stamps_ok c ?s'"
    using "4.prems" stamps_ok_pop [of c s i]
    by (auto simp add: delete_todo_def split: option.splits)
  then show ?case
    using "4.IH" [of ?s'] "4.prems" by (simp add: split_beta Let_def)
next
  case (5 c i cs)
  then show ?case by (simp add: split_beta Let_def)
next
  case (6 c cs)
  then show ?case by (simp add: split_beta Let_def)
qed

lemma stamps_ok_app_clock:
  "stamps_ok c s \<Longrightarrow> app_clock c cs \<Longrightarrow> \<exists>c'. stamps_ok c' (snd (calls app_call cs s))"
proof (induction c cs arbitrary: s rule: app_clock.induct)
  case (1 c)
  then show ?case by auto
next
  case (2 c now1 now2 ttl descr st cs)
  let ?s' = "snd (add_todo now1 now2 ttl descr st s)"
  have "stamps_ok now2 ?s'"
    using stamps_ok_append [of c s "Todo_init now1 now2 (next_id s) ttl descr st" "next_id s + 1"]
      "2.prems"
    by (simp add: add_todo_def Todo_init_def Let_def)
  then show ?case
    using "2.IH" [of ?s'] "2.prems" by (simp add: split_beta Let_def)
next
  case (3 c now i ttl descr st cs)
  let ?s' = "snd (TodoApp_update_todo now i ttl descr st s)"
  have "stamps_ok now ?s'"
  proof (cases "set_by_id i (assign_fields now ttl descr st) (todos s)")
    case None
    then show ?thesis
      using "3.prems" stamps_ok_later [of c s now] by (simp add: TodoApp_update_todo_def)
  next
    case (Some p)
    obtain r ts where p: "p = (r, ts)" by (cases p)
    have "stamps_ok now (s\<lparr>todos := ts\<rparr>)"
      using stamps_ok_set [of c s now "assign_fields now ttl descr st" i r ts] "3.prems" Some p
      by (simp add: assign_fields_def)
    then show ?thesis
      using Some p by (simp add: TodoApp_update_todo_def)
  qed
  then show ?case
    using "3.IH" [of ?s'] "3.prems" by (simp add: split_beta Let_def)
next
  case (4 c i cs)
  let ?s' = "snd (TodoApp_delete_todo i s)"
  have "stamps_ok c ?s'"
    using "4.prems" stamps_ok_pop [of c s i]
    by (auto simp add: TodoApp_delete_todo_def split: option.splits)
  then show ?case
    using "4.IH" [of ?s'] "4.prems" by (simp add: split_beta Let_def)
next
  case (5 c i cs)
  then show ?case by (simp add: split_beta Let_def)
next
  case (6 c cs)
  then show ?case by (simp add: split_beta Let_def)
qed

text \<open>
  A record created at the clock reading 10 and updated at a call where the clock reads
  5: afterwards \<open>updated_at\<close> is 5 and \<open>created_at\<close> is 10.
\<close>

theorem clock_set_back_counterexample:
  "map created_at (todos (snd (update_todo 5 1
       \<lparr>u_title = Unset, u_description = Unset, u_status = Unset\<rparr>
       (snd (create_todo 10
          \<lparr>c_title = ''A'', c_description = None, c_status = PENDING\<rparr> empty_store))))) = [10] \<and>
   map updated_at (todos (snd (update_todo 5 1
       \<lparr>u_title = Unset, u_description = Unset, u_status = Unset\<rparr>
       (snd (create_todo 10
          \<lparr>c_title = ''A'', c_description = None, c_status = PENDING\<rparr> empty_store))))) = [5]"
  by (simp add: create_todo_def update_todo_def apply_update_def empty_store_def Let_def)

text \<open>
  C9, amended. For every existing id, an update sets \<open>updated_at\<close> of the record to the
  clock reading of the call; an update that supplies no field changes nothing else of the
  record. When the clock does not run backwards (\<open>db_clock\<close>, \<open>app_clock\<close>), every
  record of every store reached from the empty one has \<open>created_at \<le> updated_at\<close>.
\<close>

theorem update_refreshes_updated_at:
  "(get_todo i s = Some t \<longrightarrow>
      (\<exists>r s1. update_todo now i todo_data s = (Some r, s1) \<and> get_todo i s1 = Some r \<and>
               updated_at r = now) \<and>
      (\<exists>s1. update_todo now i \<lparr>u_title = Unset, u_description = Unset, u_status = Unset\<rparr> s
               = (Some (t\<lparr>updated_at := now\<rparr>), s1) \<and>
             get_todo i s1 = Some (t\<lparr>updated_at := now\<rparr>))) \<and>
   (TodoApp_get_todo i s' = Some t' \<longrightarrow>
      (\<exists>r s1. TodoApp_update_todo now i ttl descr st s' = (True, s1) \<and>
               TodoApp_get_todo i s1 = Some r \<and> updated_at r = now) \<and>
      (\<exists>s1. TodoApp_update_todo now i JNull JNull JNull s' = (True, s1) \<and>
             TodoApp_get_todo i s1 = Some (t'\<lparr>updated_at := now\<rparr>))) \<and>
   (db_clock c cs \<longrightarrow>
      list_all (\<lambda>todo. created_at todo \<le> updated_at todo) (todos (snd (calls db_call cs empty_store)))) \<and>
   (app_clock c' cs' \<longrightarrow>
      list_all (\<lambda>todo. created_at todo \<le> updated_at todo) (todos (snd (calls app_call cs' empty_store))))"
proof (intro conjI impI)
  assume found: "get_todo i s = Some t"
  from update_todo_found [OF found, of now todo_data]
  show "\<exists>r s1. update_todo now i todo_data s = (Some r, s1) \<and> get_todo i s1 = Some r \<and>
               updated_at r = now"
    by (auto simp add: apply_update_def)
  from update_todo_found [OF found, of now "\<lparr>u_title = Unset, u_description = Unset, u_status = Unset\<rparr>"]
  show "\<exists>s1. update_todo now i \<lparr>u_title = Unset, u_description = Unset, u_status = Unset\<rparr> s
               = (Some (t\<lparr>updated_at := now\<rparr>), s1) \<and>
             get_todo i s1 = Some (t\<lparr>updated_at := now\<rparr>)"
    by (auto simp add: apply_update_def)
next
  assume found: "TodoApp_get_todo i s' = Some t'"
  from TodoApp_update_todo_found [OF found, of now ttl descr st]
  show "\<exists>r s1. TodoApp_update_todo now i ttl descr st s' = (True, s1) \<and>
               TodoApp_get_todo i s1 = Some r \<and> updated_at r = now"
    by (auto simp add: assign_fields_def)
  from TodoApp_update_todo_found [OF found, of now JNull JNull JNull]
  show "\<exists>s1. TodoApp_update_todo now i JNull JNull JNull s' = (True, s1) \<and>
             TodoApp_get_todo i s1 = Some (t'\<lparr>updated_at := now\<rparr>)"
    by (auto simp add: assign_fields_def)
next
  assume "db_clock c cs"
  moreover have "stamps_ok c (empty_store :: db_todo store)"
    by (simp add: stamps_ok_def empty_store_def)
  ultimately obtain c1 where "stamps_ok c1 (snd (calls db_call cs empty_store))"
    using stamps_ok_db_clock by blast
  then show "list_all (\<lambda>todo. created_at todo \<le> updated_at todo)
               (todos (snd (calls db_call cs empty_store)))"
    by (simp add: stamps_ok_def list_all_iff)
next
  assume "app_clock c' cs'"
  moreover have "stamps_ok c' (empty_store :: app_todo store)"
    by (simp add: stamps_ok_def empty_store_def)
  ultimately obtain c1 where "stamps_ok c1 (snd (calls app_call cs' empty_store))"
    using stamps_ok_app_clock by blast
  then show "list_all (\<lambda>todo. created_at todo \<le> updated_at todo)
               (todos (snd (calls app_call cs' empty_store)))"
    by (simp add: stamps_ok_def list_all_iff)
qed

theorem update_refreshes_updated_at_witness:
  "get_todo 1 (snd (create_todo 5 \<lparr>c_title = ''A'', c_description = None, c_status = PENDING\<rparr> empty_store))
     = Some \<lparr>todo_id = 1, title = Some ''A'', description = None, status = Some PENDING,
             created_at = 5, updated_at = 5\<rparr> \<and>
   update_todo 7 1 \<lparr>u_title = Unset, u_description = Unset, u_status = Unset\<rparr>
      (snd (create_todo 5 \<lparr>c_title = ''A'', c_description = None, c_status = PENDING\<rparr> empty_store))
     = (Some \<lparr>todo_id = 1, title = Some ''A'', description = None, status = Some PENDING,
              created_at = 5, updated_at = 7\<rparr>,
        \<lparr>todos = [\<lparr>todo_id = 1, title = Some ''A'', description = None, status = Some PENDING,
                    created_at = 5, updated_at = 7\<rparr>],
         next_id = 2\<rparr>) \<and>
   TodoApp_get_todo 1 (snd (add_todo 5 5 (JStr ''A'') (JStr []) (JStr ''pending'') empty_store))
     = Some \<lparr>todo_id = 1, title = JStr ''A'', description = JStr [], status = JStr ''pending'',
             created_at = 5, updated_at = 5\<rparr> \<and>
   TodoApp_update_todo 7 1 JNull JNull JNull
      (snd (add_todo 5 5 (JStr ''A'') (JStr []) (JStr ''pending'') empty_store))
     = (True,
        \<lparr>todos = [\<lparr>todo_id = 1, title = JStr ''A'', description = JStr [],
                    status = JStr ''pending'', created_at = 5, updated_at = 7\<rparr>],
         next_id = 2\<rparr>) \<and>
   db_clock 0 [Create 5 \<lparr>c_title = ''A'', c_description = None, c_status = PENDING\<rparr>,
               Update 7 1 \<lparr>u_title = Unset, u_description = Unset, u_status = Unset\<rparr>] \<and>
   map created_at (todos (snd (calls db_call
       [Create 5 \<lparr>c_title = ''A'', c_description = None, c_status = PENDING\<rparr>,
        Update 7 1 \<lparr>u_title = Unset, u_description = Unset, u_status = Unset\<rparr>] empty_store))) = [5] \<and>
   map updated_at (todos (snd (calls db_call
       [Create 5 \<lparr>c_title = ''A'', c_description = None, c_status = PENDING\<rparr>,
        Update 7 1 \<lparr>u_title = Unset, u_description = Unset, u_status = Unset\<rparr>] empty_store))) = [7] \<and>
   app_clock 0 [Add 5 5 (JStr ''A'') (JStr []) (JStr ''pending''), Change 7 1 JNull JNull JNull] \<and>
   map updated_at (todos (snd (calls app_call
       [Add 5 5 (JStr ''A'') (JStr []) (JStr ''pending''), Change 7 1 JNull JNull JNull]
       empty_store))) = [7]"
  using update_refreshes_updated_at [of 1
      "snd (create_todo 5 \<lparr>c_title = ''A'', c_description = None, c_status = PENDING\<rparr> empty_store)"
      "\<lparr>todo_id = 1, title = Some ''A'', description = None, status = Some PENDING,
             created_at = 5, updated_at = 5\<rparr>" 7
      "\<lparr>u_title = Unset, u_description = Unset, u_status = Unset\<rparr>"
      "snd (add_todo 5 5 (JStr ''A'') (JStr []) (JStr ''pending'') empty_store)"
      "\<lparr>todo_id = 1, title = JStr ''A'', description = JStr [], status = JStr ''pending'',
             created_at = 5, updated_at = 5\<rparr>" JNull JNull JNull 0
      "[Create 5 \<lparr>c_title = ''A'', c_description = None, c_status = PENDING\<rparr>,
        Update 7 1 \<lparr>u_title = Unset, u_description = Unset, u_status = Unset\<rparr>]" 0
      "[Add 5 5 (JStr ''A'') (JStr []) (JStr ''pending''), Change 7 1 JNull JNull JNull]"]
  by (simp add: get_todo_def create_todo_def update_todo_def apply_update_def TodoApp_get_todo_def
      add_todo_def Todo_init_def TodoApp_update_todo_def assign_fields_def empty_store_def Let_def)

end
